theory Spec2Isabelle
  imports Main
begin

section \<open>Swagger schema cache (libs/swagger-schemas)\<close>

text \<open>
  JSON values as the schema converter produces them. Objects are association lists of
  their own members; member lookup takes the first entry of a name.
\<close>

datatype json =
    JNull
  | JBool bool
  | JNum int
  | JStr string
  | JArr "json list"
  | JObj "(string \<times> json) list"

text \<open>\<^verbatim>\<open>const schemaCache = new Map<string, any>()\<close>: a module-level map from names to
  generated schemas.\<close>

type_synonym schemaCache = "string \<rightharpoonup> json"

definition emptyCache :: schemaCache where
  "emptyCache = Map.empty"

text \<open>
  \<^verbatim>\<open>toJsonSchema(schema, name)\<close>. The library function \<^verbatim>\<open>zodToJsonSchema\<close> is the
  parameter \<open>conv\<close>; the cache is passed in and returned.
\<close>

definition toJsonSchema ::
  "('z \<Rightarrow> string \<Rightarrow> json) \<Rightarrow> 'z \<Rightarrow> string \<Rightarrow> schemaCache \<Rightarrow> json \<times> schemaCache" where
  "toJsonSchema conv schema name cache =
     (case cache name of
        Some cached \<Rightarrow> (cached, cache)
      | None \<Rightarrow> (let jsonSchema = conv schema name in (jsonSchema, cache(name \<mapsto> jsonSchema))))"

text \<open>JavaScript truthiness of a JSON value, as \<^verbatim>\<open>||\<close> tests it.\<close>

fun truthy :: "json \<Rightarrow> bool" where
  "truthy JNull = False"
| "truthy (JBool b) = b"
| "truthy (JNum n) = (n \<noteq> 0)"
| "truthy (JStr s) = (s \<noteq> [])"
| "truthy (JArr xs) = True"
| "truthy (JObj fs) = True"

text \<open>
  \<^verbatim>\<open>(converted as any).definitions?.[name] || converted\<close>, as a function of the converted
  schema alone. Reading \<^verbatim>\<open>.definitions\<close> of \<^verbatim>\<open>null\<close> throws a TypeError; an absent or
  \<^verbatim>\<open>null\<close> \<^verbatim>\<open>definitions\<close> member stops the optional chain. Only own members of objects
  are looked up (a \<^verbatim>\<open>definitions\<close> member that is not an object has no member \<open>name\<close>).
\<close>

datatype js_error = TypeError

fun pickDefinition :: "json \<Rightarrow> string \<Rightarrow> js_error + json" where
  "pickDefinition JNull name = Inl TypeError"
| "pickDefinition (JObj fs) name =
     (case map_of fs ''definitions'' of
        Some (JObj ds) \<Rightarrow>
          (case map_of ds name of
             Some d \<Rightarrow> if truthy d then Inr d else Inr (JObj fs)
           | None \<Rightarrow> Inr (JObj fs))
      | _ \<Rightarrow> Inr (JObj fs))"
| "pickDefinition converted name = Inr converted"

text \<open>\<^verbatim>\<open>getDefinition(schema, name)\<close>.\<close>

definition getDefinition ::
  "('z \<Rightarrow> string \<Rightarrow> json) \<Rightarrow> 'z \<Rightarrow> string \<Rightarrow> schemaCache \<Rightarrow> (js_error + json) \<times> schemaCache" where
  "getDefinition conv schema name cache =
     (let (converted, cache') = toJsonSchema conv schema name cache
      in (pickDefinition converted name, cache'))"

text \<open>A run of further \<^verbatim>\<open>toJsonSchema\<close> calls, each with its own schema and name.\<close>

fun toJsonSchema_calls ::
  "('z \<Rightarrow> string \<Rightarrow> json) \<Rightarrow> ('z \<times> string) list \<Rightarrow> schemaCache \<Rightarrow> schemaCache" where
  "toJsonSchema_calls conv [] cache = cache"
| "toJsonSchema_calls conv ((schema, name) # cs) cache =
     toJsonSchema_calls conv cs (snd (toJsonSchema conv schema name cache))"

text \<open>A converter for concrete runs: the schema is a string and its JSON schema is that
  string.\<close>

definition echo_conv :: "string \<Rightarrow> string \<Rightarrow> json" where
  "echo_conv schema name = JStr schema"

section \<open>Route tables (auth.routes, admin.routes, resources.routes)\<close>

datatype http_method = GET | POST | PATCH | DELETE

text \<open>The \<^verbatim>\<open>config.rateLimit\<close> object of a route: \<^verbatim>\<open>{max, timeWindow}\<close>.\<close>

record rateLimit =
  rateLimit_max :: nat
  timeWindow :: string

text \<open>
  Modelled from the spec: the enumerated roles (the role type is not among the sources).
  \<open>USER\<close> and \<open>ADMIN\<close> are the roles the spec names; \<open>GUEST\<close> stands for the guest role
  that \<^verbatim>\<open>requireAny\<close> excludes.
\<close>

datatype role = GUEST | USER | ADMIN

text \<open>
  The hooks a route lists under \<^verbatim>\<open>preHandler\<close>: \<^verbatim>\<open>fastify.authenticate\<close> and the hooks the
  decorators \<^verbatim>\<open>requireRole(r)\<close>, \<^verbatim>\<open>requireAdmin()\<close>, \<^verbatim>\<open>requireUser()\<close>, \<^verbatim>\<open>requireAny()\<close>
  return (app.ts registers these five decorators).
\<close>

datatype guard = authenticate | requireRole role | requireAdmin | requireUser | requireAny

text \<open>
  One registered route: method, path below the module's prefix, the status codes its
  \<^verbatim>\<open>schema.response\<close> declares, its \<^verbatim>\<open>config.rateLimit\<close> (if any), its \<^verbatim>\<open>preHandler\<close> array
  (empty when the route has none) and the controller function it names as handler.
\<close>

record route =
  route_method :: http_method
  url :: string
  response_codes :: "nat list"
  config_rateLimit :: "rateLimit option"
  preHandler :: "guard list"
  handler :: string

definition authRoutes :: "route list" where
  "authRoutes =
    [\<lparr>route_method = POST, url = ''/register'', response_codes = [201, 400, 409],
      config_rateLimit = Some \<lparr>rateLimit_max = 3, timeWindow = ''1 hour''\<rparr>,
      preHandler = [], handler = ''register''\<rparr>,
     \<lparr>route_method = POST, url = ''/login'', response_codes = [200, 401],
      config_rateLimit = Some \<lparr>rateLimit_max = 5, timeWindow = ''15 minutes''\<rparr>,
      preHandler = [], handler = ''login''\<rparr>,
     \<lparr>route_method = POST, url = ''/refresh'', response_codes = [200, 401],
      config_rateLimit = Some \<lparr>rateLimit_max = 10, timeWindow = ''15 minutes''\<rparr>,
      preHandler = [], handler = ''refreshTokens''\<rparr>,
     \<lparr>route_method = POST, url = ''/logout'', response_codes = [200],
      config_rateLimit = None,
      preHandler = [], handler = ''logout''\<rparr>,
     \<lparr>route_method = GET, url = ''/me'', response_codes = [200, 401, 404],
      config_rateLimit = None,
      preHandler = [authenticate], handler = ''getMe''\<rparr>]"

definition adminRoutes :: "route list" where
  "adminRoutes =
    [\<lparr>route_method = GET, url = ''/users'', response_codes = [],
      config_rateLimit = None,
      preHandler = [authenticate, requireAdmin], handler = ''listAllUsers''\<rparr>,
     \<lparr>route_method = GET, url = ''/users/:id'', response_codes = [],
      config_rateLimit = None,
      preHandler = [authenticate, requireAdmin], handler = ''getUserById''\<rparr>,
     \<lparr>route_method = DELETE, url = ''/users/:id'', response_codes = [],
      config_rateLimit = None,
      preHandler = [authenticate, requireAdmin], handler = ''deleteUser''\<rparr>,
     \<lparr>route_method = POST, url = ''/users/:id/change-role'', response_codes = [],
      config_rateLimit = None,
      preHandler = [authenticate, requireAdmin], handler = ''changeUserRole''\<rparr>,
     \<lparr>route_method = POST, url = ''/users/:id/verify-email'', response_codes = [],
      config_rateLimit = None,
      preHandler = [authenticate, requireAdmin], handler = ''verifyUserEmail''\<rparr>,
     \<lparr>route_method = GET, url = ''/stats'', response_codes = [],
      config_rateLimit = None,
      preHandler = [authenticate, requireAdmin], handler = ''getSystemStats''\<rparr>]"

definition resourceRoutes :: "route list" where
  "resourceRoutes =
    [\<lparr>route_method = GET, url = ''/'', response_codes = [200],
      config_rateLimit = Some \<lparr>rateLimit_max = 100, timeWindow = ''15 minutes''\<rparr>,
      preHandler = [], handler = ''listResources''\<rparr>,
     \<lparr>route_method = GET, url = ''/my'', response_codes = [200, 401],
      config_rateLimit = Some \<lparr>rateLimit_max = 1000, timeWindow = ''15 minutes''\<rparr>,
      preHandler = [authenticate, requireAny], handler = ''getMyResources''\<rparr>,
     \<lparr>route_method = GET, url = ''/:id'', response_codes = [200, 404],
      config_rateLimit = Some \<lparr>rateLimit_max = 100, timeWindow = ''15 minutes''\<rparr>,
      preHandler = [], handler = ''getResource''\<rparr>,
     \<lparr>route_method = POST, url = ''/'', response_codes = [201, 400, 401],
      config_rateLimit = Some \<lparr>rateLimit_max = 1000, timeWindow = ''15 minutes''\<rparr>,
      preHandler = [authenticate, requireAny], handler = ''createResource''\<rparr>,
     \<lparr>route_method = PATCH, url = ''/:id'', response_codes = [200, 400, 401, 403, 404],
      config_rateLimit = Some \<lparr>rateLimit_max = 1000, timeWindow = ''15 minutes''\<rparr>,
      preHandler = [authenticate, requireAny], handler = ''updateResource''\<rparr>,
     \<lparr>route_method = DELETE, url = ''/:id'', response_codes = [200, 401, 403, 404],
      config_rateLimit = Some \<lparr>rateLimit_max = 1000, timeWindow = ''15 minutes''\<rparr>,
      preHandler = [authenticate, requireAny], handler = ''deleteResource''\<rparr>]"

text \<open>The route a method and path select in a module's table (the first registered).\<close>

definition find_route :: "route list \<Rightarrow> http_method \<Rightarrow> string \<Rightarrow> route option" where
  "find_route routes m u = find (\<lambda>r. route_method r = m \<and> url r = u) routes"

text \<open>
  The properties the \<^verbatim>\<open>200\<close> response schema of \<^verbatim>\<open>GET /auth/me\<close> declares for \<^verbatim>\<open>data\<close>
  (auth.routes, lines 177-187).
\<close>

definition me_data_properties :: "string list" where
  "me_data_properties =
     [''id'', ''email'', ''name'', ''role'', ''emailVerified'', ''createdAt'', ''updatedAt'']"

section \<open>Errors and the response envelope\<close>

text \<open>
  Modelled from the spec: the error taxonomy of the authentication core and the HTTP
  status each error is surfaced with (the error classes and the error handler are not
  among the sources).
\<close>

datatype error =
    ValidationError
  | DuplicateEmail
  | InvalidCredentials
  | TokenInvalid
  | TokenExpired
  | TokenReuseDetected
  | Forbidden
  | NotFound
  | RateLimited

fun status_of :: "error \<Rightarrow> nat" where
  "status_of ValidationError = 400"
| "status_of DuplicateEmail = 409"
| "status_of InvalidCredentials = 401"
| "status_of TokenInvalid = 401"
| "status_of TokenExpired = 401"
| "status_of TokenReuseDetected = 401"
| "status_of Forbidden = 403"
| "status_of NotFound = 404"
| "status_of RateLimited = 429"

fun code_of :: "error \<Rightarrow> string" where
  "code_of ValidationError = ''ValidationError''"
| "code_of DuplicateEmail = ''DuplicateEmail''"
| "code_of InvalidCredentials = ''InvalidCredentials''"
| "code_of TokenInvalid = ''TokenInvalid''"
| "code_of TokenExpired = ''TokenExpired''"
| "code_of TokenReuseDetected = ''TokenReuseDetected''"
| "code_of Forbidden = ''Forbidden''"
| "code_of NotFound = ''NotFound''"
| "code_of RateLimited = ''RateLimited''"

text \<open>
  Modelled from the spec: the response envelope
  \<^verbatim>\<open>{success, message?, data: <payload>|null, error?: {code, message}}\<close> together with the
  HTTP status. The message of an error is a function of the error alone.
\<close>

record response =
  status :: nat
  success :: bool
  data :: json
  error_code :: "string option"
  error_message :: "string option"

definition ok_response :: "nat \<Rightarrow> json \<Rightarrow> response" where
  "ok_response st payload =
     \<lparr>status = st, success = True, data = payload, error_code = None, error_message = None\<rparr>"

definition error_response :: "(error \<Rightarrow> string) \<Rightarrow> error \<Rightarrow> response" where
  "error_response message_of e =
     \<lparr>status = status_of e, success = False, data = JNull,
      error_code = Some (code_of e), error_message = Some (message_of e)\<rparr>"

section \<open>Guard chain (libs/auth/authenticate.middleware, libs/auth/rbac.middleware)\<close>

text \<open>Modelled from the spec: the claims an access token carries.\<close>

record claims =
  claims_subject :: string
  claims_role :: role
  claims_issuedAt :: nat
  claims_expiresAt :: nat

text \<open>The part of a request the guards read: the bearer token of the
  \<^verbatim>\<open>Authorization\<close> header, if there is one.\<close>

record request =
  authorization :: "string option"

text \<open>
  Modelled from the spec: the total order of the roles by privilege (higher privilege
  implies all lower capabilities).
\<close>

fun role_rank :: "role \<Rightarrow> nat" where
  "role_rank GUEST = 0"
| "role_rank USER = 1"
| "role_rank ADMIN = 2"

definition role_allows :: "role \<Rightarrow> role \<Rightarrow> bool" where
  "role_allows required caller = (role_rank required \<le> role_rank caller)"

text \<open>
  Modelled from the spec: one guard of a chain (the middleware files are not among the
  sources). \<open>verify\<close> is the Token Issuer's \<^verbatim>\<open>verifyAccessToken\<close>; \<open>user\<close> is what
  \<^verbatim>\<open>authenticate\<close> has attached to the request so far. \<^verbatim>\<open>authenticate\<close> checks token
  presence, then token validity; a role guard checks role sufficiency and denies when no
  caller is attached (deny by default); \<^verbatim>\<open>requireAdmin()\<close> is \<^verbatim>\<open>requireRole(ADMIN)\<close>,
  \<^verbatim>\<open>requireUser()\<close> is \<^verbatim>\<open>requireRole(USER)\<close>, \<^verbatim>\<open>requireAny()\<close> admits every role but the
  guest role.
\<close>

definition require_role :: "role \<Rightarrow> claims option \<Rightarrow> error + claims option" where
  "require_role r user =
     (case user of
        None \<Rightarrow> Inl TokenInvalid
      | Some c \<Rightarrow> if role_allows r (claims_role c) then Inr user else Inl Forbidden)"

fun run_guard ::
  "(string \<Rightarrow> error + claims) \<Rightarrow> request \<Rightarrow> guard \<Rightarrow> claims option \<Rightarrow> error + claims option" where
  "run_guard verify req authenticate user =
     (case authorization req of
        None \<Rightarrow> Inl TokenInvalid
      | Some token \<Rightarrow> (case verify token of Inl e \<Rightarrow> Inl e | Inr c \<Rightarrow> Inr (Some c)))"
| "run_guard verify req (requireRole r) user = require_role r user"
| "run_guard verify req requireAdmin user = require_role ADMIN user"
| "run_guard verify req requireUser user = require_role USER user"
| "run_guard verify req requireAny user =
     (case user of
        None \<Rightarrow> Inl TokenInvalid
      | Some c \<Rightarrow> if claims_role c \<noteq> GUEST then Inr user else Inl Forbidden)"

text \<open>
  Modelled from the spec (4.4): the \<^verbatim>\<open>preHandler\<close> array of a route runs in order, each guard
  seeing what the guards before it attached; the first guard that fails ends the request.
  The result carries the guards that ran, in order.
\<close>

fun run_chain ::
  "(string \<Rightarrow> error + claims) \<Rightarrow> request \<Rightarrow> guard list \<Rightarrow> claims option
     \<Rightarrow> guard list \<times> (error + claims option)" where
  "run_chain verify req [] user = ([], Inr user)"
| "run_chain verify req (g # gs) user =
     (case run_guard verify req g user of
        Inl e \<Rightarrow> ([g], Inl e)
      | Inr user' \<Rightarrow>
          (case run_chain verify req gs user' of (trail, res) \<Rightarrow> (g # trail, res)))"

text \<open>
  Modelled from the spec (4.4): a request on a route. It is denied with the status of the
  first failing guard, or else the route's handler runs.
\<close>

datatype outcome = Denied nat error | Handler_runs string

definition handle_request ::
  "(string \<Rightarrow> error + claims) \<Rightarrow> route \<Rightarrow> request \<Rightarrow> guard list \<times> outcome" where
  "handle_request verify r req =
     (case run_chain verify req (preHandler r) None of
        (trail, Inl e) \<Rightarrow> (trail, Denied (status_of e) e)
      | (trail, Inr user) \<Rightarrow> (trail, Handler_runs (handler r)))"

section \<open>Rate Limit Gate (plugins/rate-limit.plugin)\<close>

text \<open>
  The duration a \<^verbatim>\<open>timeWindow\<close> string stands for, in milliseconds, for the two strings
  the route tables use.
\<close>

definition timeWindow_ms :: "string \<Rightarrow> nat option" where
  "timeWindow_ms w =
     (if w = ''1 hour'' then Some 3600000
      else if w = ''15 minutes'' then Some 900000
      else None)"

text \<open>
  Modelled from the spec: the gate (the plugin is not among the sources). A fixed-window
  counter per key, kept with the instant its window ends: a request increments the
  counter of the active window (a new window starts at the first request after the old
  one has ended) and is rejected with \<open>RateLimited\<close> once the count exceeds \<open>max\<close>.
  Increment and check are one step.
\<close>

type_synonym counters = "string \<rightharpoonup> nat \<times> nat"

definition rate_limit_gate ::
  "nat \<Rightarrow> nat \<Rightarrow> nat \<Rightarrow> string \<Rightarrow> counters \<Rightarrow> (error + unit) \<times> counters" where
  "rate_limit_gate max_requests window now key counters =
     (let (count, window_end) =
            (case counters key of
               Some (c, e) \<Rightarrow> if now < e then (c, e) else (0, now + window)
             | None \<Rightarrow> (0, now + window));
          count' = count + 1
      in (if max_requests < count' then Inl RateLimited else Inr (),
          counters(key \<mapsto> (count', window_end))))"

text \<open>The requests of one key at the instants \<open>ts\<close>, in order: the decisions of the gate.\<close>

fun gate_run ::
  "nat \<Rightarrow> nat \<Rightarrow> string \<Rightarrow> nat list \<Rightarrow> counters \<Rightarrow> (error + unit) list" where
  "gate_run max_requests window key [] counters = []"
| "gate_run max_requests window key (t # ts) counters =
     (case rate_limit_gate max_requests window t key counters of
        (res, counters') \<Rightarrow> res # gate_run max_requests window key ts counters')"

definition no_counters :: counters where
  "no_counters = Map.empty"

section \<open>Credential Validator, Token Issuer and Rotation Protocol (modules/auth)\<close>

text \<open>
  Modelled from the spec: the functions the core takes from outside. \<open>hashToken\<close> is the
  one-way hash a refresh token is stored under, \<open>mintAccess\<close> the Token Issuer's signed
  access token for a user id at an instant, \<open>hashPassword\<close> and \<open>verifyPassword\<close> the
  salted password hash and its comparison, \<open>refreshTtl\<close> the lifetime of a refresh token,
  \<open>message_of\<close> the message shown for an error. Instants are milliseconds of the single
  server clock.
\<close>

record env =
  hashToken :: "string \<Rightarrow> string"
  mintAccess :: "string \<Rightarrow> nat \<Rightarrow> string"
  hashPassword :: "string \<Rightarrow> string"
  verifyPassword :: "string \<Rightarrow> string \<Rightarrow> bool"
  refreshTtl :: nat
  message_of :: "error \<Rightarrow> string"

text \<open>Modelled from the spec: the User row (the Prisma model is not among the sources).\<close>

record User =
  user_id :: string
  email :: string
  user_name :: "string option"
  passwordHash :: string
  user_role :: role
  emailVerified :: bool
  createdAt :: nat
  updatedAt :: nat

text \<open>Modelled from the spec: the RefreshTokenRecord row.\<close>

record RefreshTokenRecord =
  rt_id :: string
  userId :: string
  tokenHash :: string
  issuedAt :: nat
  expiresAt :: nat
  revokedAt :: "nat option"
  replacedByTokenId :: "string option"

text \<open>
  Modelled from the spec: the state of a chain link. A link is \<open>ROTATED\<close> once it has a
  successor, \<open>REVOKED\<close> once it is revoked without one; both are terminal. A link that is
  neither is \<open>EXPIRED\<close> from \<open>expiresAt\<close> on (validity is the strict \<open>now < expiresAt\<close>) and
  \<open>ACTIVE\<close> before.
\<close>

datatype link_state = ACTIVE | ROTATED | REVOKED | EXPIRED

definition link_state_of :: "nat \<Rightarrow> RefreshTokenRecord \<Rightarrow> link_state" where
  "link_state_of now r =
     (if replacedByTokenId r \<noteq> None then ROTATED
      else if revokedAt r \<noteq> None then REVOKED
      else if expiresAt r \<le> now then EXPIRED
      else ACTIVE)"

text \<open>Modelled from the spec: e-mail addresses are compared without regard to the case of
  their ASCII letters.\<close>

definition lower_char :: "char \<Rightarrow> char" where
  "lower_char c =
     (case map_of (zip ''ABCDEFGHIJKLMNOPQRSTUVWXYZ'' ''abcdefghijklmnopqrstuvwxyz'') c of
        Some l \<Rightarrow> l
      | None \<Rightarrow> c)"

text \<open>Modelled from the spec: the user with an e-mail address.\<close>

definition findUserByEmail :: "string \<Rightarrow> User list \<Rightarrow> User option" where
  "findUserByEmail mail users =
     find (\<lambda>u. map lower_char (email u) = map lower_char mail) users"

text \<open>
  Modelled from the spec: what a caller sees of a user, the row without its password hash.
  Instants stay numbers (their ISO-8601 rendering is not modelled).
\<close>

fun role_name :: "role \<Rightarrow> string" where
  "role_name GUEST = ''GUEST''"
| "role_name USER = ''USER''"
| "role_name ADMIN = ''ADMIN''"

definition publicUser :: "User \<Rightarrow> json" where
  "publicUser u =
     JObj [(''id'', JStr (user_id u)),
           (''email'', JStr (email u)),
           (''name'', (case user_name u of None \<Rightarrow> JNull | Some n \<Rightarrow> JStr n)),
           (''role'', JStr (role_name (user_role u))),
           (''emailVerified'', JBool (emailVerified u)),
           (''createdAt'', JNum (int (createdAt u))),
           (''updatedAt'', JNum (int (updatedAt u)))]"

text \<open>
  Modelled from the spec (4.1): \<^verbatim>\<open>register(email, password)\<close> fails with \<open>DuplicateEmail\<close>
  if the e-mail is present, otherwise stores the row with the hashed password; its only
  side effect is the new row. \<^verbatim>\<open>login(email, password)\<close> fails with \<open>InvalidCredentials\<close> if
  the e-mail is absent or the hash comparison fails.
\<close>

definition register ::
  "env \<Rightarrow> nat \<Rightarrow> string \<Rightarrow> string \<Rightarrow> string \<Rightarrow> string option \<Rightarrow> User list
     \<Rightarrow> (error + User) \<times> User list" where
  "register E now newId mail password nm users =
     (case findUserByEmail mail users of
        Some existing \<Rightarrow> (Inl DuplicateEmail, users)
      | None \<Rightarrow>
          (let u = \<lparr>user_id = newId, email = mail, user_name = nm,
                    passwordHash = hashPassword E password, user_role = USER,
                    emailVerified = False, createdAt = now, updatedAt = now\<rparr>
           in (Inr u, users @ [u])))"

definition login :: "env \<Rightarrow> string \<Rightarrow> string \<Rightarrow> User list \<Rightarrow> error + User" where
  "login E mail password users =
     (case findUserByEmail mail users of
        None \<Rightarrow> Inl InvalidCredentials
      | Some u \<Rightarrow>
          if verifyPassword E password (passwordHash u) then Inr u
          else Inl InvalidCredentials)"

text \<open>
  Modelled from the spec (4.2): \<^verbatim>\<open>issuePair(user)\<close> mints the access token and takes the
  fresh random refresh token \<open>newRaw\<close> (with the fresh record id \<open>newId\<close>); only the hash of
  the refresh token is stored.
\<close>

definition issuePair ::
  "env \<Rightarrow> nat \<Rightarrow> string \<Rightarrow> string \<Rightarrow> string \<Rightarrow> RefreshTokenRecord list
     \<Rightarrow> (string \<times> string) \<times> RefreshTokenRecord list" where
  "issuePair E now newId newRaw uid store =
     ((mintAccess E uid now, newRaw),
      store @ [\<lparr>rt_id = newId, userId = uid, tokenHash = hashToken E newRaw,
                issuedAt = now, expiresAt = now + refreshTtl E,
                revokedAt = None, replacedByTokenId = None\<rparr>])"

text \<open>Modelled from the spec (4.3, step 1): hash the raw token and look up the matching
  record.\<close>

definition findByTokenHash ::
  "env \<Rightarrow> string \<Rightarrow> RefreshTokenRecord list \<Rightarrow> RefreshTokenRecord option" where
  "findByTokenHash E raw store = find (\<lambda>r. tokenHash r = hashToken E raw) store"

text \<open>
  Modelled from the spec (4.3, design notes): the revocation of every record of a user,
  a bulk update keyed by user; a record is revoked once, so revoked records keep their
  instant.
\<close>

definition revokeAllForUser :: "string \<Rightarrow> nat \<Rightarrow> RefreshTokenRecord list \<Rightarrow> RefreshTokenRecord list" where
  "revokeAllForUser uid now store =
     map (\<lambda>x. if userId x = uid \<and> revokedAt x = None then x\<lparr>revokedAt := Some now\<rparr> else x) store"

text \<open>
  Modelled from the spec (4.3): \<^verbatim>\<open>refresh(rawToken)\<close>, steps (1) to (5), as one indivisible
  step on the store, decided by the state of the link the token hashes to: no link fails
  with \<open>TokenInvalid\<close> (2), an \<open>EXPIRED\<close> link with \<open>TokenExpired\<close> (3), a \<open>ROTATED\<close> or
  \<open>REVOKED\<close> link is the reuse trigger (4), an \<open>ACTIVE\<close> link is rotated (5). The states
  \<open>ROTATED\<close> and \<open>REVOKED\<close> are terminal, so such a link is the reuse trigger at every
  later instant. A record that is replaced is revoked at that instant and points to its
  successor.
\<close>

definition refresh ::
  "env \<Rightarrow> nat \<Rightarrow> string \<Rightarrow> string \<Rightarrow> string \<Rightarrow> RefreshTokenRecord list
     \<Rightarrow> (error + string \<times> string) \<times> RefreshTokenRecord list" where
  "refresh E now newId newRaw raw store =
     (case findByTokenHash E raw store of
        None \<Rightarrow> (Inl TokenInvalid, store)
      | Some r \<Rightarrow>
          (case link_state_of now r of
             EXPIRED \<Rightarrow> (Inl TokenExpired, store)
           | ROTATED \<Rightarrow> (Inl TokenReuseDetected, revokeAllForUser (userId r) now store)
           | REVOKED \<Rightarrow> (Inl TokenReuseDetected, revokeAllForUser (userId r) now store)
           | ACTIVE \<Rightarrow>
               (case issuePair E now newId newRaw (userId r)
                       (map (\<lambda>x. if rt_id x = rt_id r
                                  then x\<lparr>revokedAt := Some now, replacedByTokenId := Some newId\<rparr>
                                  else x) store) of
                  (pair, store') \<Rightarrow> (Inr pair, store'))))"

text \<open>
  Modelled from the spec (4.3): \<^verbatim>\<open>logout(rawToken)\<close> marks the matching record revoked; an
  unknown or already revoked token changes nothing; the result is always success.
\<close>

definition logout ::
  "env \<Rightarrow> nat \<Rightarrow> string \<Rightarrow> RefreshTokenRecord list \<Rightarrow> unit \<times> RefreshTokenRecord list" where
  "logout E now raw store =
     (case findByTokenHash E raw store of
        None \<Rightarrow> ((), store)
      | Some r \<Rightarrow>
          if revokedAt r \<noteq> None then ((), store)
          else ((), map (\<lambda>x. if rt_id x = rt_id r then x\<lparr>revokedAt := Some now\<rparr> else x) store))"

text \<open>
  Modelled from the spec (2, 6): the handlers of the auth routes (auth.controller is not
  among the sources). Registration and login answer with the user and a token pair,
  refresh with a new pair, logout with \<^verbatim>\<open>null\<close> data, \<^verbatim>\<open>GET /me\<close> with the profile of the
  token's subject; an error is answered with its envelope.
\<close>

definition authPayload :: "User \<Rightarrow> string \<times> string \<Rightarrow> json" where
  "authPayload u pair =
     JObj [(''user'', publicUser u),
           (''accessToken'', JStr (fst pair)),
           (''refreshToken'', JStr (snd pair))]"

definition registerController ::
  "env \<Rightarrow> nat \<Rightarrow> string \<Rightarrow> string \<Rightarrow> string \<Rightarrow> string \<Rightarrow> string \<Rightarrow> string option
     \<Rightarrow> User list \<times> RefreshTokenRecord list
     \<Rightarrow> response \<times> User list \<times> RefreshTokenRecord list" where
  "registerController E now newUserId newTokenId newRaw mail password nm db =
     (case register E now newUserId mail password nm (fst db) of
        (Inl e, users') \<Rightarrow> (error_response (message_of E) e, users', snd db)
      | (Inr u, users') \<Rightarrow>
          (case issuePair E now newTokenId newRaw (user_id u) (snd db) of
             (pair, store') \<Rightarrow> (ok_response 201 (authPayload u pair), users', store')))"

definition loginController ::
  "env \<Rightarrow> nat \<Rightarrow> string \<Rightarrow> string \<Rightarrow> string \<Rightarrow> string
     \<Rightarrow> User list \<times> RefreshTokenRecord list
     \<Rightarrow> response \<times> User list \<times> RefreshTokenRecord list" where
  "loginController E now newTokenId newRaw mail password db =
     (case login E mail password (fst db) of
        Inl e \<Rightarrow> (error_response (message_of E) e, fst db, snd db)
      | Inr u \<Rightarrow>
          (case issuePair E now newTokenId newRaw (user_id u) (snd db) of
             (pair, store') \<Rightarrow> (ok_response 200 (authPayload u pair), fst db, store')))"

definition getMeController :: "env \<Rightarrow> claims \<Rightarrow> User list \<Rightarrow> response" where
  "getMeController E c users =
     (case find (\<lambda>u. user_id u = claims_subject c) users of
        None \<Rightarrow> error_response (message_of E) NotFound
      | Some u \<Rightarrow> ok_response 200 (publicUser u))"

definition refreshController ::
  "env \<Rightarrow> nat \<Rightarrow> string \<Rightarrow> string \<Rightarrow> string \<Rightarrow> RefreshTokenRecord list
     \<Rightarrow> response \<times> RefreshTokenRecord list" where
  "refreshController E now newId newRaw raw store =
     (case refresh E now newId newRaw raw store of
        (Inl e, store') \<Rightarrow> (error_response (message_of E) e, store')
      | (Inr pair, store') \<Rightarrow>
          (ok_response 200
             (JObj [(''accessToken'', JStr (fst pair)), (''refreshToken'', JStr (snd pair))]),
           store'))"

definition logoutController ::
  "env \<Rightarrow> nat \<Rightarrow> string \<Rightarrow> RefreshTokenRecord list \<Rightarrow> response \<times> RefreshTokenRecord list" where
  "logoutController E now raw store =
     (case logout E now raw store of (u, store') \<Rightarrow> (ok_response 200 JNull, store'))"

text \<open>Every member name that occurs in a JSON value, at any depth.\<close>

fun json_keys :: "json \<Rightarrow> string list" where
  "json_keys (JObj fs) = concat (map (\<lambda>(k, v). k # json_keys v) fs)"
| "json_keys (JArr xs) = concat (map json_keys xs)"
| "json_keys other = []"

text \<open>
  The \<^verbatim>\<open>data\<close> object of a response as Fastify serialises it under a response schema that
  declares the properties \<open>props\<close> for it: members the schema does not declare are left out.
  \<open>object_keys\<close> are the member names of an object.
\<close>

fun serialize_data :: "string list \<Rightarrow> json \<Rightarrow> json" where
  "serialize_data props (JObj fs) = JObj (filter (\<lambda>(k, v). k \<in> set props) fs)"
| "serialize_data props other = other"

fun object_keys :: "json \<Rightarrow> string list" where
  "object_keys (JObj fs) = map fst fs"
| "object_keys other = []"

section \<open>Concrete data for the examples\<close>

definition demo_env :: env where
  "demo_env =
     \<lparr>hashToken = (\<lambda>s. CHR ''#'' # s),
      mintAccess = (\<lambda>uid now. ''access:'' @ uid),
      hashPassword = (\<lambda>s. CHR ''$'' # s),
      verifyPassword = (\<lambda>password h. h = CHR ''$'' # password),
      refreshTtl = 1000,
      message_of = code_of\<rparr>"

definition alice :: User where
  "alice =
     \<lparr>user_id = ''u1'', email = ''Alice@example.com'', user_name = None,
      passwordHash = ''$secret'', user_role = USER, emailVerified = False,
      createdAt = 0, updatedAt = 0\<rparr>"

definition alice_claims :: claims where
  "alice_claims =
     \<lparr>claims_subject = ''u1'', claims_role = USER, claims_issuedAt = 0, claims_expiresAt = 900000\<rparr>"

text \<open>A verifier that accepts exactly the token \<^verbatim>\<open>tok-alice\<close>, with Alice's claims.\<close>

definition demo_verify :: "string \<Rightarrow> error + claims" where
  "demo_verify token = (if token = ''tok-alice'' then Inr alice_claims else Inl TokenInvalid)"

text \<open>The store after Alice's login at instant 0 (refresh token \<^verbatim>\<open>raw1\<close>), and after the
  rotation of \<^verbatim>\<open>raw1\<close> into \<^verbatim>\<open>raw2\<close> at instant 10.\<close>

definition store_login :: "RefreshTokenRecord list" where
  "store_login = snd (issuePair demo_env 0 ''t1'' ''raw1'' ''u1'' [])"

definition store_rotated :: "RefreshTokenRecord list" where
  "store_rotated = snd (refresh demo_env 10 ''t2'' ''raw2'' ''raw1'' store_login)"

definition record_t1_rotated :: RefreshTokenRecord where
  "record_t1_rotated =
     \<lparr>rt_id = ''t1'', userId = ''u1'', tokenHash = ''#raw1'', issuedAt = 0, expiresAt = 1000,
      revokedAt = Some 10, replacedByTokenId = Some ''t2''\<rparr>"

definition record_t2 :: RefreshTokenRecord where
  "record_t2 =
     \<lparr>rt_id = ''t2'', userId = ''u1'', tokenHash = ''#raw2'', issuedAt = 10, expiresAt = 1010,
      revokedAt = None, replacedByTokenId = None\<rparr>"

text \<open>No window of the key is active at instant \<open>t\<close>: the key has no counter, or its window
  has ended.\<close>

definition window_over :: "counters \<Rightarrow> string \<Rightarrow> nat \<Rightarrow> bool" where
  "window_over counters key t =
     (case counters key of None \<Rightarrow> True | Some (c, e) \<Rightarrow> e \<le> t)"

definition counters_at_900 :: counters where
  "counters_at_900 = no_counters(''10.0.0.7'' \<mapsto> (5, 900))"

section \<open>The scaffolding CLI (bin/create-tigra.js)\<close>

subsection \<open>Case transformation utilities\<close>

text \<open>
  A string is the sequence of the bytes of its UTF-8 encoding, as a file name is. The
  character classes, separators and placeholders of the CLI are ASCII, and every byte of a
  character outside ASCII is outside ASCII, so a run of characters outside a class is a
  run of bytes outside it.

  \<^verbatim>\<open>String.prototype.toLowerCase\<close> and \<^verbatim>\<open>toUpperCase\<close> are the Unicode case mappings of the
  JavaScript runtime. They are taken from outside, so that what is proved holds for the
  runtime's functions.
\<close>

record js_runtime =
  toLowerCase :: "string \<Rightarrow> string"
  toUpperCase :: "string \<Rightarrow> string"

text \<open>The character classes \<^verbatim>\<open>[a-z0-9]\<close> and, with the flag \<^verbatim>\<open>i\<close>, \<^verbatim>\<open>[a-z0-9]\<close> in either
  case.\<close>

definition is_lower_alnum :: "char \<Rightarrow> bool" where
  "is_lower_alnum c = (c \<in> set ''abcdefghijklmnopqrstuvwxyz0123456789'')"

definition is_alnum :: "char \<Rightarrow> bool" where
  "is_alnum c =
     (c \<in> set ''abcdefghijklmnopqrstuvwxyzABCDEFGHIJKLMNOPQRSTUVWXYZ0123456789'')"

text \<open>
  \<^verbatim>\<open>.replace(/[^a-z0-9]+/g, sep)\<close>: every maximal run of characters outside the class becomes
  one \<open>sep\<close>. The flag says that the previous character belonged to a run that is already
  replaced.
\<close>

fun replace_runs :: "(char \<Rightarrow> bool) \<Rightarrow> char \<Rightarrow> bool \<Rightarrow> string \<Rightarrow> string" where
  "replace_runs keep sep in_run [] = []"
| "replace_runs keep sep in_run (c # cs) =
     (if keep c then c # replace_runs keep sep False cs
      else if in_run then replace_runs keep sep True cs
      else sep # replace_runs keep sep True cs)"

text \<open>\<^verbatim>\<open>.replace(/^-|-$/g, '')\<close> (and the same with \<^verbatim>\<open>_\<close>): one separator is removed at the
  start, then one at the end of what is left.\<close>

definition strip_ends :: "char \<Rightarrow> string \<Rightarrow> string" where
  "strip_ends sep s =
     (let s1 = (case s of [] \<Rightarrow> [] | c # cs \<Rightarrow> if c = sep then cs else s)
      in if s1 \<noteq> [] \<and> last s1 = sep then butlast s1 else s1)"

definition toKebabCase :: "js_runtime \<Rightarrow> string \<Rightarrow> string" where
  "toKebabCase rt str =
     strip_ends CHR ''-'' (replace_runs is_lower_alnum CHR ''-'' False (toLowerCase rt str))"

definition toSnakeCase :: "js_runtime \<Rightarrow> string \<Rightarrow> string" where
  "toSnakeCase rt str =
     strip_ends CHR ''_'' (replace_runs is_lower_alnum CHR ''_'' False (toLowerCase rt str))"

text \<open>\<^verbatim>\<open>str.split(sep)\<close> for a one-character separator, and \<^verbatim>\<open>.join(sep)\<close>.\<close>

fun split_on :: "char \<Rightarrow> string \<Rightarrow> string list" where
  "split_on sep [] = [[]]"
| "split_on sep (c # cs) =
     (if c = sep then [] # split_on sep cs
      else (case split_on sep cs of
              w # ws \<Rightarrow> (c # w) # ws
            | [] \<Rightarrow> [[c]]))"

fun join_with :: "string \<Rightarrow> string list \<Rightarrow> string" where
  "join_with sep [] = []"
| "join_with sep [w] = w"
| "join_with sep (w # ws) = w @ sep @ join_with sep ws"

text \<open>\<^verbatim>\<open>w.charAt(0).toUpperCase() + w.slice(1).toLowerCase()\<close>, for a word of ASCII letters and
  digits, as the words of \<^verbatim>\<open>toTitleCase\<close> are (one character is one byte there).\<close>

definition capitalize :: "js_runtime \<Rightarrow> string \<Rightarrow> string" where
  "capitalize rt w = toUpperCase rt (take 1 w) @ toLowerCase rt (drop 1 w)"

definition toTitleCase :: "js_runtime \<Rightarrow> string \<Rightarrow> string" where
  "toTitleCase rt str =
     join_with '' ''
       (map (capitalize rt)
          (split_on CHR '' '' (replace_runs is_alnum CHR '' '' False str)))"

subsection \<open>Template variable replacement\<close>

record config =
  projectName :: string
  projectNameSnake :: string
  projectDisplayName :: string
  projectDescription :: string
  databaseName :: string
  databaseUser :: string
  databasePassword :: string
  authorName :: string
  jwtSecret :: string

text \<open>
  \<^verbatim>\<open>result.split(key).join(value)\<close>: every occurrence of \<open>key\<close>, found from left to right
  without overlap, becomes \<open>value\<close>. The keys are the non-empty placeholders below.
\<close>

function replace_all :: "string \<Rightarrow> string \<Rightarrow> string \<Rightarrow> string" where
  "replace_all key val [] = []"
| "replace_all key val (c # cs) =
     (if key \<noteq> [] \<and> take (length key) (c # cs) = key
      then val @ replace_all key val (drop (length key) (c # cs))
      else c # replace_all key val cs)"
  by pat_completeness auto
termination
  by (relation "measure (\<lambda>(key, val, s). length s)") auto

definition replacements :: "config \<Rightarrow> (string \<times> string) list" where
  "replacements cfg =
     [(''{{PROJECT_NAME}}'', projectName cfg),
      (''{{PROJECT_NAME_SNAKE}}'', projectNameSnake cfg),
      (''{{PROJECT_DISPLAY_NAME}}'', projectDisplayName cfg),
      (''{{PROJECT_DESCRIPTION}}'', projectDescription cfg),
      (''{{DATABASE_NAME}}'', databaseName cfg),
      (''{{DATABASE_USER}}'', databaseUser cfg),
      (''{{DATABASE_PASSWORD}}'', databasePassword cfg),
      (''{{AUTHOR_NAME}}'', authorName cfg),
      (''{{JWT_SECRET}}'', jwtSecret cfg)]"

definition replaceTemplateVariables :: "string \<Rightarrow> config \<Rightarrow> string" where
  "replaceTemplateVariables content cfg =
     foldl (\<lambda>result (key, val). replace_all key val result) content (replacements cfg)"

definition filesToProcess :: "string list" where
  "filesToProcess =
     [''CLAUDE.md'',
      ''server/package.json'',
      ''server/.env.example'',
      ''server/docker-compose.yml'',
      ''server/README.md'',
      ''server/src/config/env.ts'',
      ''server/prisma/schema.prisma'',
      ''server/Tigra-API.postman_collection.json'']"

definition excludePatterns :: "string list" where
  "excludePatterns =
     [''node_modules'', ''dist'', ''.git'', ''package-lock.json'', ''pnpm-lock.yaml'',
      ''yarn.lock'', ''coverage'', ''build-errors.txt'', ''.env.local'', ''.env'',
      ''*.tsbuildinfo'', ''tsconfig.build.tsbuildinfo'', ''.DS_Store'', ''Thumbs.db'']"

subsection \<open>The file system and the copy filter\<close>

text \<open>
  A file system entry: a file with its content, or a directory with its named entries.
  The current working directory is the list of its entries; names in a directory are
  looked up first match first.
\<close>

datatype node = File string | Dir "(string \<times> node) list"

fun str_includes :: "string \<Rightarrow> string \<Rightarrow> bool" where
  "str_includes [] sub = (sub = [])"
| "str_includes (c # cs) sub = (take (length sub) (c # cs) = sub \<or> str_includes cs sub)"

definition startsWith :: "string \<Rightarrow> string \<Rightarrow> bool" where
  "startsWith s p = (take (length p) s = p)"

definition endsWith :: "string \<Rightarrow> string \<Rightarrow> bool" where
  "endsWith s p = (length p \<le> length s \<and> drop (length s - length p) s = p)"

definition basename :: "string \<Rightarrow> string" where
  "basename p = (case rev (split_on CHR ''/'' p) of w # ws \<Rightarrow> w | [] \<Rightarrow> [])"

text \<open>
  \<^verbatim>\<open>filterFunc(src)\<close> for the source at the path \<open>relativePath\<close> below the template directory
  (the empty path is the template directory itself); \<^verbatim>\<open>path.sep\<close> is \<^verbatim>\<open>/\<close>.
\<close>

definition filterFunc :: "string \<Rightarrow> string \<Rightarrow> bool" where
  "filterFunc templateDir relativePath =
     (let src = (if relativePath = [] then templateDir else templateDir @ ''/'' @ relativePath)
      in if relativePath = [] then True
         else if basename src = ''.env'' \<and> \<not> endsWith src ''.env.example'' then False
         else \<not> list_ex
                (\<lambda>pattern.
                   relativePath = pattern
                   \<or> str_includes relativePath (''/'' @ pattern)
                   \<or> str_includes relativePath (pattern @ ''/'')
                   \<or> startsWith relativePath (pattern @ ''/''))
                excludePatterns)"

definition child_path :: "string \<Rightarrow> string \<Rightarrow> string" where
  "child_path rel entry = (if rel = [] then entry else rel @ ''/'' @ entry)"

text \<open>
  \<^verbatim>\<open>fs.copy(templateDir, targetDir, { filter })\<close>: the copy of the tree at \<open>rel\<close>, without what
  the filter rejects (a rejected directory is not entered).
\<close>

fun copy_node :: "(string \<Rightarrow> bool) \<Rightarrow> string \<Rightarrow> node \<Rightarrow> node option"
  and copy_entries :: "(string \<Rightarrow> bool) \<Rightarrow> string \<Rightarrow> (string \<times> node) list \<Rightarrow> (string \<times> node) list" where
  "copy_node keep rel (File content) = (if keep rel then Some (File content) else None)"
| "copy_node keep rel (Dir entries) =
     (if keep rel then Some (Dir (copy_entries keep rel entries)) else None)"
| "copy_entries keep rel [] = []"
| "copy_entries keep rel ((entry, n) # entries) =
     (case copy_node keep (child_path rel entry) n of
        None \<Rightarrow> copy_entries keep rel entries
      | Some n' \<Rightarrow> (entry, n') # copy_entries keep rel entries)"

text \<open>The entry at a path (a list of names) below a node, and the node with the file at a
  path overwritten.\<close>

fun lookup_path :: "string list \<Rightarrow> node \<Rightarrow> node option" where
  "lookup_path [] n = Some n"
| "lookup_path (s # ss) (File content) = None"
| "lookup_path (s # ss) (Dir entries) =
     (case map_of entries s of None \<Rightarrow> None | Some n \<Rightarrow> lookup_path ss n)"

fun write_node :: "string list \<Rightarrow> string \<Rightarrow> node \<Rightarrow> node"
  and write_entries :: "string \<Rightarrow> string list \<Rightarrow> string \<Rightarrow> (string \<times> node) list \<Rightarrow> (string \<times> node) list" where
  "write_node [] content n = File content"
| "write_node (s # ss) content (File old) = File old"
| "write_node (s # ss) content (Dir entries) = Dir (write_entries s ss content entries)"
| "write_entries s ss content [] = []"
| "write_entries s ss content ((entry, n) # entries) =
     (if entry = s then (entry, write_node ss content n) # entries
      else (entry, n) # write_entries s ss content entries)"

subsection \<open>The command action\<close>

text \<open>
  What one invocation receives from outside: the \<^verbatim>\<open>[project-name]\<close> argument, the
  \<^verbatim>\<open>--yes\<close> option, the answers the prompts return (\<open>None\<close> when a prompt is cancelled) and
  the secret \<^verbatim>\<open>generateSecureSecret(48)\<close> draws.
\<close>

record invocation =
  projectNameArg :: "string option"
  yes :: bool
  promptedProjectName :: "string option"
  answeredDisplayName :: "string option"
  answeredDescription :: "string option"
  answeredAuthorName :: "string option"
  generatedSecret :: string

datatype fs_op = CopyTemplate string | WriteFile string

text \<open>The outcome of an invocation: the exit code of the process, the entries of the
  working directory afterwards, and the file system operations it performed, in order.\<close>

record outcome_cli =
  exit_code :: nat
  cwd_after :: "(string \<times> node) list"
  fs_ops :: "fs_op list"

text \<open>The project name before \<^verbatim>\<open>toKebabCase\<close>: the argument, or else the prompted name;
  \<open>None\<close> when the prompt gives none (the action prints \<^verbatim>\<open>Cancelled.\<close> and exits with 1).\<close>

definition givenProjectName :: "invocation \<Rightarrow> string option" where
  "givenProjectName call =
     (let prompted = (case promptedProjectName call of
                        Some p \<Rightarrow> if p \<noteq> [] then Some p else None
                      | None \<Rightarrow> None)
      in case projectNameArg call of
           Some a \<Rightarrow> if a \<noteq> [] then Some a else prompted
         | None \<Rightarrow> prompted)"

text \<open>\<^verbatim>\<open>fs.existsSync(path.join(process.cwd(), projectName))\<close>; joining the empty name gives
  the working directory itself, which exists.\<close>

definition existsSync :: "(string \<times> node) list \<Rightarrow> string \<Rightarrow> bool" where
  "existsSync cwd entry = (entry = [] \<or> map_of cwd entry \<noteq> None)"

definition or_empty :: "string option \<Rightarrow> string" where
  "or_empty answer = (case answer of Some s \<Rightarrow> s | None \<Rightarrow> [])"

definition gatherConfig :: "js_runtime \<Rightarrow> invocation \<Rightarrow> string \<Rightarrow> config option" where
  "gatherConfig rt call pname =
     (if yes call then
        Some \<lparr>projectName = pname,
              projectNameSnake = toSnakeCase rt pname,
              projectDisplayName = toTitleCase rt pname,
              projectDescription = ''A production-ready REST API server'',
              databaseName = toSnakeCase rt pname @ ''_db'',
              databaseUser = ''root'',
              databasePassword = ''password'',
              authorName = [],
              jwtSecret = generatedSecret call\<rparr>
      else if or_empty (answeredDisplayName call) = [] then None
      else
        Some \<lparr>projectName = pname,
              projectNameSnake = toSnakeCase rt pname,
              projectDisplayName = or_empty (answeredDisplayName call),
              projectDescription = or_empty (answeredDescription call),
              databaseName = toSnakeCase rt pname @ ''_db'',
              databaseUser = ''root'',
              databasePassword = ''password'',
              authorName = or_empty (answeredAuthorName call),
              jwtSecret = generatedSecret call\<rparr>)"

text \<open>
  The loop over \<^verbatim>\<open>filesToProcess\<close>: a listed file that exists is read, rewritten and written
  back. Reading a directory throws; the \<^verbatim>\<open>catch\<close> block then exits with 1, which the \<open>False\<close>
  reports.
\<close>

fun processFiles ::
  "config \<Rightarrow> string list \<Rightarrow> node \<Rightarrow> fs_op list \<Rightarrow> bool \<times> node \<times> fs_op list" where
  "processFiles cfg [] target ops = (True, target, ops)"
| "processFiles cfg (file # files) target ops =
     (case lookup_path (split_on CHR ''/'' file) target of
        None \<Rightarrow> processFiles cfg files target ops
      | Some (File content) \<Rightarrow>
          processFiles cfg files
            (write_node (split_on CHR ''/'' file) (replaceTemplateVariables content cfg) target)
            (ops @ [WriteFile file])
      | Some (Dir entries) \<Rightarrow> (False, target, ops))"

text \<open>
  \<^verbatim>\<open>program.action(async (projectNameArg, options) => ...)\<close> on the working directory \<open>cwd\<close>,
  with the template tree \<open>template\<close> found at \<open>templateDir\<close>, under the runtime \<open>rt\<close>.
\<close>

definition action ::
  "js_runtime \<Rightarrow> invocation \<Rightarrow> string \<Rightarrow> node \<Rightarrow> (string \<times> node) list \<Rightarrow> outcome_cli" where
  "action rt call templateDir template cwd =
     (case givenProjectName call of
        None \<Rightarrow> \<lparr>exit_code = 1, cwd_after = cwd, fs_ops = []\<rparr>
      | Some given \<Rightarrow>
          (let pname = toKebabCase rt given in
           if existsSync cwd pname
           then \<lparr>exit_code = 1, cwd_after = cwd, fs_ops = []\<rparr>
           else
             (case gatherConfig rt call pname of
                None \<Rightarrow> \<lparr>exit_code = 1, cwd_after = cwd, fs_ops = []\<rparr>
              | Some cfg \<Rightarrow>
                  (case copy_node (filterFunc templateDir) [] template of
                     None \<Rightarrow> \<lparr>exit_code = 0, cwd_after = cwd, fs_ops = [CopyTemplate pname]\<rparr>
                   | Some copied \<Rightarrow>
                       (case processFiles cfg filesToProcess copied [CopyTemplate pname] of
                          (ok, target, ops) \<Rightarrow>
                            \<lparr>exit_code = (if ok then 0 else 1),
                             cwd_after = cwd @ [(pname, target)],
                             fs_ops = ops\<rparr>)))))"

subsection \<open>Concrete data for the CLI examples\<close>

text \<open>
  A runtime for the examples. Its case mappings agree with the Unicode ones on the strings
  of the examples: ASCII letters change case, and the capital I with dot above (U+0130,
  the bytes C4 B0) lower-cases to \<^verbatim>\<open>i\<close> followed by the combining dot above (U+0307, the bytes
  CC 87).
\<close>

definition upper_char :: "char \<Rightarrow> char" where
  "upper_char c =
     (case map_of (zip ''abcdefghijklmnopqrstuvwxyz'' ''ABCDEFGHIJKLMNOPQRSTUVWXYZ'') c of
        Some l \<Rightarrow> l
      | None \<Rightarrow> c)"

fun demo_toLowerCase :: "string \<Rightarrow> string" where
  "demo_toLowerCase [] = []"
| "demo_toLowerCase [c] = [lower_char c]"
| "demo_toLowerCase (c1 # c2 # cs) =
     (if c1 = CHR 0xC4 \<and> c2 = CHR 0xB0
      then CHR ''i'' # CHR 0xCC # CHR 0x87 # demo_toLowerCase cs
      else lower_char c1 # demo_toLowerCase (c2 # cs))"

definition demo_runtime :: js_runtime where
  "demo_runtime = \<lparr>toLowerCase = demo_toLowerCase, toUpperCase = map upper_char\<rparr>"

text \<open>The name \<^verbatim>\<open>Istanbul\<close> written with the capital I with dot above.\<close>

definition dotted_Istanbul :: string where
  "dotted_Istanbul = CHR 0xC4 # CHR 0xB0 # ''stanbul''"

definition dotted_invocation :: invocation where
  "dotted_invocation =
     \<lparr>projectNameArg = Some dotted_Istanbul, yes = True, promptedProjectName = None,
      answeredDisplayName = None, answeredDescription = None, answeredAuthorName = None,
      generatedSecret = ''s3cr3t''\<rparr>"

definition dotted_cwd :: "(string \<times> node) list" where
  "dotted_cwd = [(''i-stanbul'', Dir [(''notes.txt'', File ''keep me'')])]"

definition demo_invocation :: invocation where
  "demo_invocation =
     \<lparr>projectNameArg = Some ''My App'', yes = True, promptedProjectName = None,
      answeredDisplayName = None, answeredDescription = None, answeredAuthorName = None,
      generatedSecret = ''s3cr3t''\<rparr>"

definition demo_template :: node where
  "demo_template =
     Dir [(''CLAUDE.md'', File ''# {{PROJECT_DISPLAY_NAME}}''),
          (''server'',
             Dir [(''package.json'', File ''name: {{PROJECT_NAME}}''),
                  (''.env'', File ''SECRET=1''),
                  (''node_modules'', Dir [(''x.js'', File ''x'')])])]"

definition demo_cwd :: "(string \<times> node) list" where
  "demo_cwd = [(''my-app'', Dir [(''notes.txt'', File ''keep me'')])]"

section \<open>Verified properties\<close>

subsection \<open>The schema cache\<close>

lemma toJsonSchema_cached:
  "cache name = Some j \<Longrightarrow> toJsonSchema conv schema name cache = (j, cache)"
  by (simp add: toJsonSchema_def)

lemma toJsonSchema_fresh:
  "cache name = None \<Longrightarrow>
   toJsonSchema conv schema name cache = (conv schema name, cache(name \<mapsto> conv schema name))"
  by (simp add: toJsonSchema_def Let_def)

lemma toJsonSchema_stores:
  "snd (toJsonSchema conv schema name cache) name = Some (fst (toJsonSchema conv schema name cache))"
  by (cases "cache name") (simp_all add: toJsonSchema_def Let_def)

lemma toJsonSchema_keeps:
  "cache n = Some j \<Longrightarrow> snd (toJsonSchema conv schema name cache) n = Some j"
  by (cases "cache name") (auto simp: toJsonSchema_def Let_def)

lemma toJsonSchema_calls_keeps:
  "cache n = Some j \<Longrightarrow> toJsonSchema_calls conv cs cache n = Some j"
proof (induction cs arbitrary: cache)
  case Nil
  then show ?case by simp
next
  case (Cons c cs)
  obtain schema name where c: "c = (schema, name)" by (cases c)
  from Cons.prems have "snd (toJsonSchema conv schema name cache) n = Some j"
    by (rule toJsonSchema_keeps)
  then show ?case unfolding c by (simp add: Cons.IH)
qed


text \<open>
  C10 (as amended). After a call \<^verbatim>\<open>toJsonSchema(s1, n)\<close>, every later call
  \<^verbatim>\<open>toJsonSchema(s2, n)\<close>, whatever calls come in between, returns what the call with \<open>s1\<close>
  returned and leaves the cache as it is, and \<^verbatim>\<open>getDefinition(s2, n)\<close> is computed from that
  value and the name alone; \<open>s2\<close> is ignored. The value is the schema generated from \<open>s1\<close>
  when \<open>n\<close> was not cached before the call with \<open>s1\<close> (otherwise it is the older cached
  schema).
\<close>

theorem toJsonSchema_name_decides:
  "toJsonSchema conv s2 n (toJsonSchema_calls conv cs (snd (toJsonSchema conv s1 n cache)))
     = (fst (toJsonSchema conv s1 n cache),
        toJsonSchema_calls conv cs (snd (toJsonSchema conv s1 n cache)))
   \<and> fst (getDefinition conv s2 n (toJsonSchema_calls conv cs (snd (toJsonSchema conv s1 n cache))))
     = pickDefinition (fst (toJsonSchema conv s1 n cache)) n
   \<and> (cache n = None \<longrightarrow> fst (toJsonSchema conv s1 n cache) = conv s1 n)"
proof -
  let ?j = "fst (toJsonSchema conv s1 n cache)"
  let ?c = "toJsonSchema_calls conv cs (snd (toJsonSchema conv s1 n cache))"
  have "snd (toJsonSchema conv s1 n cache) n = Some ?j"
    by (rule toJsonSchema_stores)
  then have "?c n = Some ?j"
    by (rule toJsonSchema_calls_keeps)
  then have later: "toJsonSchema conv s2 n ?c = (?j, ?c)"
    by (rule toJsonSchema_cached)
  then have "fst (getDefinition conv s2 n ?c) = pickDefinition ?j n"
    by (simp add: getDefinition_def)
  moreover have "cache n = None \<longrightarrow> ?j = conv s1 n"
    by (simp add: toJsonSchema_fresh)
  ultimately show ?thesis using later by simp
qed

theorem toJsonSchema_name_decides_witness:
  "emptyCache ''N'' = None
   \<and> toJsonSchema echo_conv ''s2'' ''N''
        (toJsonSchema_calls echo_conv [(''x'', ''M'')]
           (snd (toJsonSchema echo_conv ''s1'' ''N'' emptyCache)))
     = (JStr ''s1'',
        toJsonSchema_calls echo_conv [(''x'', ''M'')]
           (snd (toJsonSchema echo_conv ''s1'' ''N'' emptyCache)))"
  using toJsonSchema_name_decides [of echo_conv "''s2''" "''N''" "[(''x'', ''M'')]" "''s1''" emptyCache]
  by (simp add: emptyCache_def echo_conv_def)

text \<open>
  C10 as stated fails when the name was cached before the call with \<open>s1\<close>: after
  \<^verbatim>\<open>toJsonSchema(s0, N)\<close> and \<^verbatim>\<open>toJsonSchema(s1, N)\<close>, the call \<^verbatim>\<open>toJsonSchema(s2, N)\<close>
  returns the schema generated from \<open>s0\<close>, not the one generated from \<open>s1\<close>.
\<close>

theorem toJsonSchema_generated_from_s1_counterexample:
  "fst (toJsonSchema echo_conv ''s2'' ''N''
          (snd (toJsonSchema echo_conv ''s1'' ''N''
             (snd (toJsonSchema echo_conv ''s0'' ''N'' emptyCache)))))
     \<noteq> echo_conv ''s1'' ''N''"
  by (simp add: toJsonSchema_def emptyCache_def echo_conv_def Let_def)

text \<open>
  C8. In \<^verbatim>\<open>resourceRoutes\<close>, \<^verbatim>\<open>GET /\<close> and \<^verbatim>\<open>GET /:id\<close> are registered with an empty guard
  chain: neither \<^verbatim>\<open>authenticate\<close> nor a role guard runs, and every request, with or without a
  token, reaches their handlers. The other four routes (\<^verbatim>\<open>GET /my\<close>, \<^verbatim>\<open>POST /\<close>,
  \<^verbatim>\<open>PATCH /:id\<close>, \<^verbatim>\<open>DELETE /:id\<close>), and only they, carry the chain \<^verbatim>\<open>authenticate\<close>,
  \<^verbatim>\<open>requireAny\<close>; a request without a token is denied there with 401 by \<^verbatim>\<open>authenticate\<close>.
\<close>

theorem resource_read_routes_unguarded:
  "map (\<lambda>r. (route_method r, url r, preHandler r)) resourceRoutes =
     [(GET, ''/'', []),
      (GET, ''/my'', [authenticate, requireAny]),
      (GET, ''/:id'', []),
      (POST, ''/'', [authenticate, requireAny]),
      (PATCH, ''/:id'', [authenticate, requireAny]),
      (DELETE, ''/:id'', [authenticate, requireAny])]
   \<and> map (\<lambda>r. (route_method r, url r, handle_request verify r req))
         (filter (\<lambda>r. preHandler r = []) resourceRoutes) =
     [(GET, ''/'', [], Handler_runs ''listResources''),
      (GET, ''/:id'', [], Handler_runs ''getResource'')]
   \<and> map (\<lambda>r. (route_method r, url r, handle_request verify r \<lparr>authorization = None\<rparr>))
         (filter (\<lambda>r. preHandler r \<noteq> []) resourceRoutes) =
     [(GET, ''/my'', [authenticate], Denied 401 TokenInvalid),
      (POST, ''/'', [authenticate], Denied 401 TokenInvalid),
      (PATCH, ''/:id'', [authenticate], Denied 401 TokenInvalid),
      (DELETE, ''/:id'', [authenticate], Denied 401 TokenInvalid)]"
  by (simp add: resourceRoutes_def handle_request_def)

subsection \<open>The auth core\<close>

lemma store_rotated_eq: "store_rotated = [record_t1_rotated, record_t2]"
  by (simp add: store_rotated_def store_login_def refresh_def issuePair_def findByTokenHash_def
      link_state_of_def demo_env_def record_t1_rotated_def record_t2_def)

lemma find_map_stable:
  assumes "\<And>x. P (f x) = P x"
  shows "find P (map f xs) = map_option f (find P xs)"
  using assms by (induction xs) simp_all

text \<open>
  C6. For every user store, a login with an e-mail that is not in the store and a login
  with an e-mail that is in the store but a password whose hash comparison fails both fail
  with \<open>InvalidCredentials\<close>, and the two responses are the same envelope (status 401, same
  code, same message, \<^verbatim>\<open>null\<close> data), whatever the other inputs of the two calls are; neither
  call changes the stores.
\<close>

theorem login_failures_identical:
  assumes "findUserByEmail mail1 users = None"
    and "findUserByEmail mail2 users = Some u"
    and "\<not> verifyPassword E password2 (passwordHash u)"
  shows "login E mail1 password1 users = Inl InvalidCredentials
     \<and> login E mail2 password2 users = Inl InvalidCredentials
     \<and> loginController E now1 id1 raw1 mail1 password1 (users, store)
         = (error_response (message_of E) InvalidCredentials, users, store)
     \<and> loginController E now2 id2 raw2 mail2 password2 (users, store)
         = (error_response (message_of E) InvalidCredentials, users, store)
     \<and> status (error_response (message_of E) InvalidCredentials) = 401"
  using assms by (simp add: login_def loginController_def error_response_def)

theorem login_failures_identical_witness:
  "findUserByEmail ''bob@example.com'' [alice] = None
   \<and> findUserByEmail ''alice@EXAMPLE.com'' [alice] = Some alice
   \<and> \<not> verifyPassword demo_env ''guess'' (passwordHash alice)
   \<and> loginController demo_env 5 ''t1'' ''raw1'' ''bob@example.com'' ''secret'' ([alice], [])
       = loginController demo_env 7 ''t2'' ''raw2'' ''alice@EXAMPLE.com'' ''guess'' ([alice], [])"
proof -
  have a: "findUserByEmail ''bob@example.com'' [alice] = None"
    by (simp add: findUserByEmail_def alice_def lower_char_def)
  have b: "findUserByEmail ''alice@EXAMPLE.com'' [alice] = Some alice"
    by (simp add: findUserByEmail_def alice_def lower_char_def)
  have c: "\<not> verifyPassword demo_env ''guess'' (passwordHash alice)"
    by (simp add: demo_env_def alice_def)
  from login_failures_identical [OF a b c, of "''secret''" 5 "''t1''" "''raw1''" "[]" 7 "''t2''" "''raw2''"]
  show ?thesis using a b c by simp
qed

lemma json_keys_publicUser:
  "json_keys (publicUser u) =
     [''id'', ''email'', ''name'', ''role'', ''emailVerified'', ''createdAt'', ''updatedAt'']"
  by (cases "user_name u") (simp_all add: publicUser_def)

lemma json_keys_authPayload:
  "json_keys (authPayload u pair) =
     [''user'', ''id'', ''email'', ''name'', ''role'', ''emailVerified'', ''createdAt'',
      ''updatedAt'', ''accessToken'', ''refreshToken'']"
  by (simp add: authPayload_def json_keys_publicUser)

lemma object_keys_serialize_data:
  "set (object_keys (serialize_data props payload)) \<subseteq> set props"
  by (cases payload) auto

text \<open>
  C5. For all users and all inputs, the payloads of the registration result, of the login
  result and of the \<^verbatim>\<open>GET /auth/me\<close> profile contain no member named \<^verbatim>\<open>passwordHash\<close> at any
  depth. The response schema of \<^verbatim>\<open>GET /auth/me\<close> does not declare such a property either, so
  the \<^verbatim>\<open>data\<close> object serialised under it has no such member whatever the handler put there.
\<close>

theorem user_payloads_without_passwordHash:
  "''passwordHash'' \<notin> set (json_keys (data (fst
       (registerController E now newUserId newTokenId newRaw mail password nm db))))
   \<and> ''passwordHash'' \<notin> set (json_keys (data (fst
       (loginController E now newTokenId newRaw mail password db))))
   \<and> ''passwordHash'' \<notin> set (json_keys (data (getMeController E c users)))
   \<and> ''passwordHash'' \<notin> set me_data_properties
   \<and> ''passwordHash'' \<notin> set (object_keys (serialize_data me_data_properties payload))"
proof -
  have reg: "''passwordHash'' \<notin> set (json_keys (data (fst
       (registerController E now newUserId newTokenId newRaw mail password nm db))))"
    by (simp add: registerController_def register_def issuePair_def error_response_def
        ok_response_def json_keys_authPayload Let_def split: option.split)
  have log: "''passwordHash'' \<notin> set (json_keys (data (fst
       (loginController E now newTokenId newRaw mail password db))))"
    by (simp add: loginController_def login_def issuePair_def error_response_def
        ok_response_def json_keys_authPayload split: option.split)
  have me: "''passwordHash'' \<notin> set (json_keys (data (getMeController E c users)))"
    by (simp add: getMeController_def error_response_def ok_response_def json_keys_publicUser
        split: option.split)
  have props: "''passwordHash'' \<notin> set me_data_properties"
    by (simp add: me_data_properties_def)
  have ser: "''passwordHash'' \<notin> set (object_keys (serialize_data me_data_properties payload))"
    using object_keys_serialize_data [of me_data_properties payload] props by blast
  from reg log me props ser show ?thesis by blast
qed

lemma map_update_distinct:
  assumes "distinct (map f xs)" and "i < length xs"
  shows "map (\<lambda>x. if f x = f (xs ! i) then g x else x) xs = xs[i := g (xs ! i)]"
proof (rule nth_equalityI)
  show "length (map (\<lambda>x. if f x = f (xs ! i) then g x else x) xs) = length (xs[i := g (xs ! i)])"
    by simp
next
  fix j
  assume "j < length (map (\<lambda>x. if f x = f (xs ! i) then g x else x) xs)"
  then have j: "j < length xs" by simp
  have "f (xs ! j) = f (xs ! i) \<longleftrightarrow> j = i"
    using assms j nth_eq_iff_index_eq [of "map f xs" j i] by simp
  then show "map (\<lambda>x. if f x = f (xs ! i) then g x else x) xs ! j = xs[i := g (xs ! i)] ! j"
    using j assms(2) by (auto simp: nth_list_update)
qed

lemma findByTokenHash_map:
  assumes "\<And>x. tokenHash (f x) = tokenHash x"
  shows "findByTokenHash E raw (map f store) = map_option f (findByTokenHash E raw store)"
  unfolding findByTokenHash_def by (rule find_map_stable) (simp add: assms)

lemma logout_unknown:
  "findByTokenHash E raw store = None \<Longrightarrow> logout E now raw store = ((), store)"
  by (simp add: logout_def)

lemma logout_revoked:
  "findByTokenHash E raw store = Some r \<Longrightarrow> revokedAt r \<noteq> None \<Longrightarrow>
   logout E now raw store = ((), store)"
  by (auto simp: logout_def)

lemma logout_unrevoked:
  "findByTokenHash E raw store = Some r \<Longrightarrow> revokedAt r = None \<Longrightarrow>
   logout E now raw store =
     ((), map (\<lambda>x. if rt_id x = rt_id r then x\<lparr>revokedAt := Some now\<rparr> else x) store)"
  by (simp add: logout_def)

lemma logout_twice:
  "logout E now' raw (snd (logout E now raw store)) = ((), snd (logout E now raw store))"
proof (cases "findByTokenHash E raw store")
  case None
  then show ?thesis by (simp add: logout_unknown)
next
  case (Some r)
  show ?thesis
  proof (cases "revokedAt r")
    case (Some t)
    with \<open>findByTokenHash E raw store = Some r\<close> show ?thesis
      by (simp add: logout_revoked)
  next
    case None
    let ?f = "\<lambda>x. if rt_id x = rt_id r then x\<lparr>revokedAt := Some now\<rparr> else x"
    have first: "snd (logout E now raw store) = map ?f store"
      using Some None by (simp add: logout_unrevoked)
    have "findByTokenHash E raw (map ?f store) = map_option ?f (findByTokenHash E raw store)"
      by (rule findByTokenHash_map) simp
    then have "findByTokenHash E raw (map ?f store) = Some (?f r)"
      using Some by simp
    moreover have "revokedAt (?f r) \<noteq> None" by simp
    ultimately have "logout E now' raw (map ?f store) = ((), map ?f store)"
      by (rule logout_revoked)
    with first show ?thesis by simp
  qed
qed

text \<open>
  C3. For every raw token, logout answers with the success envelope with \<^verbatim>\<open>null\<close> data. A
  token that matches no record, or a record that is already revoked, leaves the store as it
  is; a second logout with the same token succeeds and changes nothing more. The first
  logout of an active record changes the store in that record alone (record ids being
  distinct): its \<open>revokedAt\<close> is set, which makes it \<open>REVOKED\<close> from then on. The route
  \<^verbatim>\<open>POST /auth/logout\<close> is registered with no guard and declares the response 200 only.
\<close>

theorem logout_always_succeeds:
  "fst (logoutController E now raw store) = ok_response 200 JNull
   \<and> (findByTokenHash E raw store = None \<longrightarrow> snd (logoutController E now raw store) = store)
   \<and> (\<forall>r. findByTokenHash E raw store = Some r \<and> revokedAt r \<noteq> None
          \<longrightarrow> snd (logoutController E now raw store) = store)
   \<and> logoutController E now' raw (snd (logoutController E now raw store))
       = (ok_response 200 JNull, snd (logoutController E now raw store))
   \<and> (\<forall>i. i < length store \<and> distinct (map rt_id store)
            \<and> findByTokenHash E raw store = Some (store ! i)
            \<and> link_state_of now (store ! i) = ACTIVE
          \<longrightarrow> snd (logoutController E now raw store)
                = store[i := (store ! i)\<lparr>revokedAt := Some now\<rparr>]
              \<and> link_state_of now' ((store ! i)\<lparr>revokedAt := Some now\<rparr>) = REVOKED)
   \<and> map_option (\<lambda>r. (response_codes r, preHandler r, handler r))
        (find_route authRoutes POST ''/logout'') = Some ([200], [], ''logout'')"
proof -
  have ctl: "\<And>t s. logoutController E t raw s = (ok_response 200 JNull, snd (logout E t raw s))"
    by (simp add: logoutController_def split: prod.split)
  have ok: "fst (logoutController E now raw store) = ok_response 200 JNull"
    by (simp add: ctl)
  have unknown: "findByTokenHash E raw store = None \<longrightarrow>
      snd (logoutController E now raw store) = store"
    by (simp add: ctl logout_unknown)
  have revoked: "\<forall>r. findByTokenHash E raw store = Some r \<and> revokedAt r \<noteq> None
      \<longrightarrow> snd (logoutController E now raw store) = store"
    by (auto simp: ctl logout_revoked)
  have twice: "logoutController E now' raw (snd (logoutController E now raw store))
       = (ok_response 200 JNull, snd (logoutController E now raw store))"
    by (simp add: ctl logout_twice)
  have active: "\<forall>i. i < length store \<and> distinct (map rt_id store)
            \<and> findByTokenHash E raw store = Some (store ! i)
            \<and> link_state_of now (store ! i) = ACTIVE
          \<longrightarrow> snd (logoutController E now raw store)
                = store[i := (store ! i)\<lparr>revokedAt := Some now\<rparr>]
              \<and> link_state_of now' ((store ! i)\<lparr>revokedAt := Some now\<rparr>) = REVOKED"
  proof (intro allI impI, elim conjE)
    fix i
    assume i: "i < length store" and d: "distinct (map rt_id store)"
      and f: "findByTokenHash E raw store = Some (store ! i)"
      and a: "link_state_of now (store ! i) = ACTIVE"
    from a have nr: "revokedAt (store ! i) = None" and np: "replacedByTokenId (store ! i) = None"
      by (auto simp: link_state_of_def split: if_splits)
    have "snd (logout E now raw store) =
        map (\<lambda>x. if rt_id x = rt_id (store ! i) then x\<lparr>revokedAt := Some now\<rparr> else x) store"
      using f nr by (simp add: logout_unrevoked)
    also have "\<dots> = store[i := (store ! i)\<lparr>revokedAt := Some now\<rparr>]"
      using d i by (rule map_update_distinct)
    finally have "snd (logoutController E now raw store)
        = store[i := (store ! i)\<lparr>revokedAt := Some now\<rparr>]"
      by (simp add: ctl)
    moreover have "link_state_of now' ((store ! i)\<lparr>revokedAt := Some now\<rparr>) = REVOKED"
      using np by (simp add: link_state_of_def)
    ultimately show "snd (logoutController E now raw store)
                = store[i := (store ! i)\<lparr>revokedAt := Some now\<rparr>]
              \<and> link_state_of now' ((store ! i)\<lparr>revokedAt := Some now\<rparr>) = REVOKED"
      by simp
  qed
  have route: "map_option (\<lambda>r. (response_codes r, preHandler r, handler r))
        (find_route authRoutes POST ''/logout'') = Some ([200], [], ''logout'')"
    by (simp add: find_route_def authRoutes_def)
  from ok unknown revoked twice active route show ?thesis by blast
qed

theorem logout_always_succeeds_witness:
  "findByTokenHash demo_env ''nope'' store_rotated = None
   \<and> snd (logoutController demo_env 20 ''nope'' store_rotated) = store_rotated
   \<and> findByTokenHash demo_env ''raw1'' store_rotated = Some record_t1_rotated
   \<and> revokedAt record_t1_rotated \<noteq> None
   \<and> snd (logoutController demo_env 20 ''raw1'' store_rotated) = store_rotated
   \<and> 1 < length store_rotated \<and> distinct (map rt_id store_rotated)
   \<and> findByTokenHash demo_env ''raw2'' store_rotated = Some (store_rotated ! 1)
   \<and> link_state_of 20 (store_rotated ! 1) = ACTIVE
   \<and> snd (logoutController demo_env 20 ''raw2'' store_rotated)
       = [record_t1_rotated, record_t2\<lparr>revokedAt := Some 20\<rparr>]
   \<and> link_state_of 30 (record_t2\<lparr>revokedAt := Some 20\<rparr>) = REVOKED"
proof -
  have a: "findByTokenHash demo_env ''nope'' store_rotated = None"
    by (simp add: store_rotated_eq findByTokenHash_def demo_env_def record_t1_rotated_def
        record_t2_def)
  have b: "findByTokenHash demo_env ''raw1'' store_rotated = Some record_t1_rotated"
    by (simp add: store_rotated_eq findByTokenHash_def demo_env_def record_t1_rotated_def
        record_t2_def)
  have c: "revokedAt record_t1_rotated \<noteq> None"
    by (simp add: record_t1_rotated_def)
  have d: "1 < length store_rotated \<and> distinct (map rt_id store_rotated)"
    by (simp add: store_rotated_eq record_t1_rotated_def record_t2_def)
  have e: "findByTokenHash demo_env ''raw2'' store_rotated = Some (store_rotated ! 1)"
    by (simp add: store_rotated_eq findByTokenHash_def demo_env_def record_t1_rotated_def
        record_t2_def)
  have f: "link_state_of 20 (store_rotated ! 1) = ACTIVE"
    by (simp add: store_rotated_eq link_state_of_def record_t2_def)
  have n: "store_rotated ! 1 = record_t2"
    by (simp add: store_rotated_eq)
  note t1 = logout_always_succeeds [of demo_env 20 "''nope''" store_rotated 30]
  note t2 = logout_always_succeeds [of demo_env 20 "''raw1''" store_rotated 30]
  note t3 = logout_always_succeeds [of demo_env 20 "''raw2''" store_rotated 30]
  have u: "snd (logoutController demo_env 20 ''nope'' store_rotated) = store_rotated"
    using t1 a by blast
  have v: "snd (logoutController demo_env 20 ''raw1'' store_rotated) = store_rotated"
    using t2 b c by blast
  have w: "snd (logoutController demo_env 20 ''raw2'' store_rotated)
             = store_rotated[1 := (store_rotated ! 1)\<lparr>revokedAt := Some 20\<rparr>]
           \<and> link_state_of 30 ((store_rotated ! 1)\<lparr>revokedAt := Some 20\<rparr>) = REVOKED"
    using t3 d e f by blast
  have x: "store_rotated[1 := (store_rotated ! 1)\<lparr>revokedAt := Some 20\<rparr>]
             = [record_t1_rotated, record_t2\<lparr>revokedAt := Some 20\<rparr>]"
    by (simp add: store_rotated_eq)
  from a b c d e f u v w x n show ?thesis by simp
qed




lemma refresh_reuse:
  assumes "findByTokenHash E raw store = Some r"
    and "link_state_of now r = ROTATED \<or> link_state_of now r = REVOKED"
  shows "refresh E now newId newRaw raw store
           = (Inl TokenReuseDetected, revokeAllForUser (userId r) now store)"
  using assms by (auto simp: refresh_def)

lemma revoked_link_state:
  "revokedAt r \<noteq> None \<Longrightarrow> link_state_of now r = ROTATED \<or> link_state_of now r = REVOKED"
  by (simp add: link_state_of_def)

lemma refresh_revoked_fails:
  assumes "findByTokenHash E raw store = Some r" and "revokedAt r \<noteq> None"
  shows "refresh E now newId newRaw raw store
           = (Inl TokenReuseDetected, revokeAllForUser (userId r) now store)"
  using assms(1) revoked_link_state [OF assms(2)] by (rule refresh_reuse)



subsection \<open>Guard chains\<close>

lemma run_chain_short_circuit:
  assumes "run_chain verify req gs1 user = (trail, Inr user')"
    and "run_guard verify req g user' = Inl e"
  shows "trail = gs1 \<and> run_chain verify req (gs1 @ g # gs2) user = (gs1 @ [g], Inl e)"
  using assms
proof (induction gs1 arbitrary: user trail)
  case Nil
  then show ?case by simp
next
  case (Cons a gs1)
  from Cons.prems(1) obtain u1 where a: "run_guard verify req a user = Inr u1"
    by (cases "run_guard verify req a user") simp_all
  obtain tr res where rest: "run_chain verify req gs1 u1 = (tr, res)"
    by (cases "run_chain verify req gs1 u1")
  from Cons.prems(1) a rest have tr: "trail = a # tr" and res: "res = Inr user'"
    by simp_all
  from Cons.IH [OF rest [unfolded res] Cons.prems(2)]
  have "tr = gs1" and "run_chain verify req (gs1 @ g # gs2) u1 = (gs1 @ [g], Inl e)"
    by simp_all
  with a tr show ?case by simp
qed

lemma handle_request_denied:
  "run_chain verify req (preHandler r) None = (trail, Inl e) \<Longrightarrow>
   handle_request verify r req = (trail, Denied (status_of e) e)"
  by (simp add: handle_request_def)

lemma adminRoutes_preHandler:
  "r \<in> set adminRoutes \<Longrightarrow> preHandler r = [authenticate, requireAdmin]"
  by (auto simp: adminRoutes_def)

lemma user_denied_by_requireAdmin:
  assumes "preHandler r = [authenticate, requireAdmin]"
    and "verify token = Inr c" and "claims_role c = USER"
  shows "handle_request verify r \<lparr>authorization = Some token\<rparr>
           = ([authenticate, requireAdmin], Denied 403 Forbidden)"
  using assms by (simp add: handle_request_def require_role_def role_allows_def)

lemma user_passes_requireAny:
  assumes "preHandler r = [authenticate, requireAny]"
    and "verify token = Inr c" and "claims_role c = USER"
  shows "handle_request verify r \<lparr>authorization = Some token\<rparr>
           = ([authenticate, requireAny], Handler_runs (handler r))"
  using assms by (simp add: handle_request_def)

text \<open>
  C4. Every route of \<^verbatim>\<open>adminRoutes\<close> lists the guard chain \<^verbatim>\<open>authenticate\<close>, \<^verbatim>\<open>requireAdmin\<close>
  in that order. A request with a valid access token whose role claim is \<open>USER\<close> runs both
  guards on every admin route and is denied with 403 without the handler running; the same
  request reaches the handler of any route guarded by \<^verbatim>\<open>authenticate\<close>, \<^verbatim>\<open>requireAny\<close>. In any
  chain, the first failing guard ends the run: the guards after it do not run, and the
  request is denied with that guard's error instead of reaching the handler.
\<close>

theorem admin_routes_require_admin:
  "(\<forall>r \<in> set adminRoutes. preHandler r = [authenticate, requireAdmin])
   \<and> (\<forall>r \<in> set adminRoutes. \<forall>token c. verify token = Inr c \<and> claims_role c = USER
         \<longrightarrow> handle_request verify r \<lparr>authorization = Some token\<rparr>
               = ([authenticate, requireAdmin], Denied 403 Forbidden))
   \<and> (\<forall>r token c. preHandler r = [authenticate, requireAny]
           \<and> verify token = Inr c \<and> claims_role c = USER
         \<longrightarrow> handle_request verify r \<lparr>authorization = Some token\<rparr>
               = ([authenticate, requireAny], Handler_runs (handler r)))
   \<and> (\<forall>gs1 g gs2 user user' trail e.
           run_chain verify req gs1 user = (trail, Inr user') \<and> run_guard verify req g user' = Inl e
         \<longrightarrow> run_chain verify req (gs1 @ g # gs2) user = (gs1 @ [g], Inl e))
   \<and> (\<forall>r trail e. run_chain verify req (preHandler r) None = (trail, Inl e)
         \<longrightarrow> handle_request verify r req = (trail, Denied (status_of e) e))"
proof (intro conjI)
  show "\<forall>r \<in> set adminRoutes. preHandler r = [authenticate, requireAdmin]"
    by (simp add: adminRoutes_preHandler)
  show "\<forall>r \<in> set adminRoutes. \<forall>token c. verify token = Inr c \<and> claims_role c = USER
         \<longrightarrow> handle_request verify r \<lparr>authorization = Some token\<rparr>
               = ([authenticate, requireAdmin], Denied 403 Forbidden)"
    using adminRoutes_preHandler user_denied_by_requireAdmin by blast
  show "\<forall>r token c. preHandler r = [authenticate, requireAny]
           \<and> verify token = Inr c \<and> claims_role c = USER
         \<longrightarrow> handle_request verify r \<lparr>authorization = Some token\<rparr>
               = ([authenticate, requireAny], Handler_runs (handler r))"
    using user_passes_requireAny by blast
  show "\<forall>gs1 g gs2 user user' trail e.
           run_chain verify req gs1 user = (trail, Inr user') \<and> run_guard verify req g user' = Inl e
         \<longrightarrow> run_chain verify req (gs1 @ g # gs2) user = (gs1 @ [g], Inl e)"
    using run_chain_short_circuit by blast
  show "\<forall>r trail e. run_chain verify req (preHandler r) None = (trail, Inl e)
         \<longrightarrow> handle_request verify r req = (trail, Denied (status_of e) e)"
    using handle_request_denied by blast
qed

theorem admin_routes_require_admin_witness:
  "demo_verify ''tok-alice'' = Inr alice_claims
   \<and> claims_role alice_claims = USER
   \<and> adminRoutes ! 3 \<in> set adminRoutes
   \<and> url (adminRoutes ! 3) = ''/users/:id/change-role''
   \<and> handle_request demo_verify (adminRoutes ! 3) \<lparr>authorization = Some ''tok-alice''\<rparr>
       = ([authenticate, requireAdmin], Denied 403 Forbidden)
   \<and> preHandler (resourceRoutes ! 1) = [authenticate, requireAny]
   \<and> handle_request demo_verify (resourceRoutes ! 1) \<lparr>authorization = Some ''tok-alice''\<rparr>
       = ([authenticate, requireAny], Handler_runs ''getMyResources'')
   \<and> run_chain demo_verify \<lparr>authorization = None\<rparr> [] None = ([], Inr None)
   \<and> run_guard demo_verify \<lparr>authorization = None\<rparr> authenticate None = Inl TokenInvalid
   \<and> run_chain demo_verify \<lparr>authorization = None\<rparr> ([] @ authenticate # [requireAdmin]) None
       = ([] @ [authenticate], Inl TokenInvalid)
   \<and> handle_request demo_verify (adminRoutes ! 3) \<lparr>authorization = None\<rparr>
       = ([authenticate], Denied 401 TokenInvalid)"
proof -
  have a: "demo_verify ''tok-alice'' = Inr alice_claims"
    by (simp add: demo_verify_def)
  have b: "claims_role alice_claims = USER"
    by (simp add: alice_claims_def)
  have c: "adminRoutes ! 3 \<in> set adminRoutes"
    by (simp add: adminRoutes_def)
  have d: "url (adminRoutes ! 3) = ''/users/:id/change-role''"
    by (simp add: adminRoutes_def)
  have e: "preHandler (resourceRoutes ! 1) = [authenticate, requireAny]"
    by (simp add: resourceRoutes_def)
  have f: "handler (resourceRoutes ! 1) = ''getMyResources''"
    by (simp add: resourceRoutes_def)
  have g: "run_chain demo_verify \<lparr>authorization = None\<rparr> [] None = ([], Inr None)"
    by simp
  have h: "run_guard demo_verify \<lparr>authorization = None\<rparr> authenticate None = Inl TokenInvalid"
    by simp
  have i: "preHandler (adminRoutes ! 3) = [] @ authenticate # [requireAdmin]"
    by (simp add: adminRoutes_def)
  note t = admin_routes_require_admin [of demo_verify "\<lparr>authorization = None\<rparr>"]
  from t a b c have 1: "handle_request demo_verify (adminRoutes ! 3) \<lparr>authorization = Some ''tok-alice''\<rparr>
       = ([authenticate, requireAdmin], Denied 403 Forbidden)"
    by blast
  from t a b e have "handle_request demo_verify (resourceRoutes ! 1) \<lparr>authorization = Some ''tok-alice''\<rparr>
       = ([authenticate, requireAny], Handler_runs (handler (resourceRoutes ! 1)))"
    by blast
  then have 2: "handle_request demo_verify (resourceRoutes ! 1) \<lparr>authorization = Some ''tok-alice''\<rparr>
       = ([authenticate, requireAny], Handler_runs ''getMyResources'')"
    by (simp only: f)
  from t g h have 3: "run_chain demo_verify \<lparr>authorization = None\<rparr> ([] @ authenticate # [requireAdmin]) None
       = ([] @ [authenticate], Inl TokenInvalid)"
    by blast
  then have "run_chain demo_verify \<lparr>authorization = None\<rparr> (preHandler (adminRoutes ! 3)) None
       = ([authenticate], Inl TokenInvalid)"
    by (simp only: i append_Nil)
  with t have "handle_request demo_verify (adminRoutes ! 3) \<lparr>authorization = None\<rparr>
       = ([authenticate], Denied (status_of TokenInvalid) TokenInvalid)"
    by blast
  then have 4: "handle_request demo_verify (adminRoutes ! 3) \<lparr>authorization = None\<rparr>
       = ([authenticate], Denied 401 TokenInvalid)"
    by simp
  from a b c d e g h 1 2 3 4 show ?thesis by blast
qed

subsection \<open>Rate limits\<close>

lemma rate_limit_gate_in_window:
  "counters key = Some (c, e) \<Longrightarrow> t < e \<Longrightarrow>
   rate_limit_gate m w t key counters =
     (if c < m then Inr () else Inl RateLimited, counters(key \<mapsto> (Suc c, e)))"
  by (auto simp: rate_limit_gate_def)

lemma rate_limit_gate_new_window:
  "window_over counters key t \<Longrightarrow>
   rate_limit_gate m w t key counters =
     (if 0 < m then Inr () else Inl RateLimited, counters(key \<mapsto> (Suc 0, t + w)))"
  by (auto simp: rate_limit_gate_def window_over_def split: option.splits)

lemma gate_run_in_window:
  "counters key = Some (c, e) \<Longrightarrow> \<forall>t \<in> set ts. t < e \<Longrightarrow>
   gate_run m w key ts counters =
     map (\<lambda>i. if c + i < m then Inr () else Inl RateLimited) [0..<length ts]"
proof (induction ts arbitrary: c counters)
  case Nil
  then show ?case by simp
next
  case (Cons t ts)
  from Cons.prems have step: "rate_limit_gate m w t key counters =
     (if c < m then Inr () else Inl RateLimited, counters(key \<mapsto> (Suc c, e)))"
    by (simp add: rate_limit_gate_in_window)
  have "gate_run m w key ts (counters(key \<mapsto> (Suc c, e))) =
     map (\<lambda>i. if Suc c + i < m then Inr () else Inl RateLimited) [0..<length ts]"
    using Cons.prems by (intro Cons.IH) simp_all
  with step show ?case
    by (simp add: map_upt_Suc del: upt_Suc)
qed

lemma first_requests_pass:
  "n \<le> m \<Longrightarrow> map (\<lambda>i. if i < m then a else b) [0..<n] = replicate n a"
  by (induction n) (simp_all add: replicate_append_same)

lemma gate_run_new_window:
  assumes "window_over counters key t0" and "\<forall>t \<in> set ts. t < t0 + w"
  shows "gate_run m w key (t0 # ts) counters =
     map (\<lambda>i. if i < m then Inr () else Inl RateLimited) [0..<Suc (length ts)]"
proof -
  have step: "rate_limit_gate m w t0 key counters =
     (if 0 < m then Inr () else Inl RateLimited, counters(key \<mapsto> (Suc 0, t0 + w)))"
    using assms(1) by (rule rate_limit_gate_new_window)
  have "gate_run m w key ts (counters(key \<mapsto> (Suc 0, t0 + w))) =
     map (\<lambda>i. if Suc 0 + i < m then Inr () else Inl RateLimited) [0..<length ts]"
    using assms(2) by (intro gate_run_in_window) simp_all
  with step show ?thesis
    by (simp add: map_upt_Suc del: upt_Suc)
qed

text \<open>
  C7. The rate limits the auth routes are registered with are 3 per \<^verbatim>\<open>1 hour\<close> for
  \<^verbatim>\<open>POST /register\<close>, 5 per \<^verbatim>\<open>15 minutes\<close> for \<^verbatim>\<open>POST /login\<close> and 10 per \<^verbatim>\<open>15 minutes\<close> for
  \<^verbatim>\<open>POST /refresh\<close>. At a gate with limit \<open>m\<close>, of the requests of one key that fall into one
  window (the first of them starting it), the first \<open>m\<close> pass and every further one, the
  \<open>(m+1)\<close>-th first, is rejected with \<open>RateLimited\<close>, status 429.
\<close>

theorem auth_rate_limits:
  "map_option config_rateLimit (find_route authRoutes POST ''/register'')
     = Some (Some \<lparr>rateLimit_max = 3, timeWindow = ''1 hour''\<rparr>)
   \<and> map_option config_rateLimit (find_route authRoutes POST ''/login'')
     = Some (Some \<lparr>rateLimit_max = 5, timeWindow = ''15 minutes''\<rparr>)
   \<and> map_option config_rateLimit (find_route authRoutes POST ''/refresh'')
     = Some (Some \<lparr>rateLimit_max = 10, timeWindow = ''15 minutes''\<rparr>)
   \<and> timeWindow_ms ''1 hour'' = Some (60 * 60 * 1000)
   \<and> timeWindow_ms ''15 minutes'' = Some (15 * 60 * 1000)
   \<and> (window_over counters key t0 \<and> (\<forall>t \<in> set ts. t < t0 + w)
        \<longrightarrow> gate_run m w key (t0 # ts) counters
              = map (\<lambda>i. if i < m then Inr () else Inl RateLimited) [0..<Suc (length ts)]
            \<and> (length ts = m \<longrightarrow>
                 gate_run m w key (t0 # ts) counters = replicate m (Inr ()) @ [Inl RateLimited]))
   \<and> status_of RateLimited = 429"
proof -
  have routes: "map_option config_rateLimit (find_route authRoutes POST ''/register'')
       = Some (Some \<lparr>rateLimit_max = 3, timeWindow = ''1 hour''\<rparr>)
     \<and> map_option config_rateLimit (find_route authRoutes POST ''/login'')
       = Some (Some \<lparr>rateLimit_max = 5, timeWindow = ''15 minutes''\<rparr>)
     \<and> map_option config_rateLimit (find_route authRoutes POST ''/refresh'')
       = Some (Some \<lparr>rateLimit_max = 10, timeWindow = ''15 minutes''\<rparr>)"
    by (simp add: find_route_def authRoutes_def)
  have windows: "timeWindow_ms ''1 hour'' = Some (60 * 60 * 1000)
     \<and> timeWindow_ms ''15 minutes'' = Some (15 * 60 * 1000)"
    by (simp add: timeWindow_ms_def)
  have shape: "map (\<lambda>i. if i < m then Inr () else Inl RateLimited) [0..<Suc m]
      = replicate m (Inr ()) @ [Inl RateLimited :: error + unit]"
    by (simp add: first_requests_pass)
  have run: "window_over counters key t0 \<and> (\<forall>t \<in> set ts. t < t0 + w)
        \<longrightarrow> gate_run m w key (t0 # ts) counters
              = map (\<lambda>i. if i < m then Inr () else Inl RateLimited) [0..<Suc (length ts)]"
    using gate_run_new_window [of counters key t0 ts w m] by blast
  then have gate: "window_over counters key t0 \<and> (\<forall>t \<in> set ts. t < t0 + w)
        \<longrightarrow> gate_run m w key (t0 # ts) counters
              = map (\<lambda>i. if i < m then Inr () else Inl RateLimited) [0..<Suc (length ts)]
            \<and> (length ts = m \<longrightarrow>
                 gate_run m w key (t0 # ts) counters = replicate m (Inr ()) @ [Inl RateLimited])"
    using shape by metis
  have st: "status_of RateLimited = 429" by simp
  from routes windows gate st show ?thesis by blast
qed

theorem auth_rate_limits_witness:
  "window_over counters_at_900 ''10.0.0.7'' 1000
   \<and> gate_run 5 900000 ''10.0.0.7'' (1000 # [2000, 3000, 4000, 5000, 900999]) counters_at_900
       = [Inr (), Inr (), Inr (), Inr (), Inr (), Inl RateLimited]"
proof -
  have a: "window_over counters_at_900 ''10.0.0.7'' 1000"
    by (simp add: window_over_def counters_at_900_def)
  have b: "\<forall>t \<in> set [2000, 3000, 4000, 5000, 900999 :: nat]. t < 1000 + 900000"
    by simp
  have c: "length [2000, 3000, 4000, 5000, 900999 :: nat] = 5"
    by simp
  from auth_rate_limits [of counters_at_900 "''10.0.0.7''" 1000 "[2000, 3000, 4000, 5000, 900999]" 900000 5] a b c
  have "gate_run 5 900000 ''10.0.0.7'' (1000 # [2000, 3000, 4000, 5000, 900999]) counters_at_900
       = replicate 5 (Inr ()) @ [Inl RateLimited]"
    by blast
  moreover have "replicate 5 (Inr ()) @ [Inl RateLimited]
      = [Inr (), Inr (), Inr (), Inr (), Inr (), Inl RateLimited :: error + unit]"
    by (simp add: numeral_eq_Suc)
  ultimately show ?thesis using a by simp
qed

subsection \<open>The scaffolding CLI\<close>

lemma toKebabCase_My_App: "toKebabCase demo_runtime ''My App'' = ''my-app''"
  by (simp add: toKebabCase_def strip_ends_def demo_runtime_def lower_char_def is_lower_alnum_def)

lemma toKebabCase_dotted_Istanbul: "toKebabCase demo_runtime dotted_Istanbul = ''i-stanbul''"
  by (simp add: toKebabCase_def strip_ends_def demo_runtime_def dotted_Istanbul_def
      lower_char_def is_lower_alnum_def)

lemma action_creates_project:
  "action demo_runtime demo_invocation ''/pkg/template'' demo_template [] =
     \<lparr>exit_code = 0,
      cwd_after =
        [(''my-app'',
          Dir [(''CLAUDE.md'', File ''# My App''),
               (''server'', Dir [(''package.json'', File ''name: my-app'')])])],
      fs_ops = [CopyTemplate ''my-app'', WriteFile ''CLAUDE.md'', WriteFile ''server/package.json'']\<rparr>"
  by code_simp

text \<open>
  C9. For every invocation, under every runtime, when an entry (a directory, or any other
  entry) named as the kebab-cased project name exists in the current working directory,
  the action exits with code 1 having performed no file system operation: nothing is
  copied or written and the working directory, the existing entry included, is as before.
\<close>

theorem action_existing_directory_aborts:
  assumes "givenProjectName call = Some given"
    and "map_of cwd (toKebabCase rt given) = Some existing"
  shows "action rt call templateDir template cwd
           = \<lparr>exit_code = 1, cwd_after = cwd, fs_ops = []\<rparr>
     \<and> map_of (cwd_after (action rt call templateDir template cwd)) (toKebabCase rt given)
         = Some existing"
  using assms by (simp add: action_def existsSync_def Let_def)

theorem action_existing_directory_aborts_witness:
  "givenProjectName dotted_invocation = Some dotted_Istanbul
   \<and> toKebabCase demo_runtime dotted_Istanbul = ''i-stanbul''
   \<and> map_of dotted_cwd (toKebabCase demo_runtime dotted_Istanbul)
       = Some (Dir [(''notes.txt'', File ''keep me'')])
   \<and> action demo_runtime dotted_invocation ''/pkg/template'' demo_template dotted_cwd
       = \<lparr>exit_code = 1, cwd_after = dotted_cwd, fs_ops = []\<rparr>"
proof -
  have a: "givenProjectName dotted_invocation = Some dotted_Istanbul"
    by (simp add: givenProjectName_def dotted_invocation_def dotted_Istanbul_def)
  have b: "map_of dotted_cwd (toKebabCase demo_runtime dotted_Istanbul)
       = Some (Dir [(''notes.txt'', File ''keep me'')])"
    by (simp add: toKebabCase_dotted_Istanbul dotted_cwd_def)
  from action_existing_directory_aborts [OF a b, of "''/pkg/template''" demo_template] a b
  show ?thesis using toKebabCase_dotted_Istanbul by blast
qed

subsection \<open>A rotated token is spent\<close>

lemma find_append_first:
  "find P xs = Some x \<Longrightarrow> find P (xs @ ys) = Some x"
  by (induction xs) (auto split: if_splits)

text \<open>
  When refresh, run as one step, succeeds for a token, every later refresh with the same
  token fails: of two refresh calls with one token that are served one after the other,
  at most the first succeeds.
\<close>

lemma refresh_success_spends_token:
  assumes "refresh E now newId newRaw raw store = (Inr pair, store')"
  shows "fst (refresh E now' newId' newRaw' raw store') = Inl TokenReuseDetected"
proof -
  from assms obtain r where r: "findByTokenHash E raw store = Some r"
    by (cases "findByTokenHash E raw store") (simp_all add: refresh_def)
  let ?f = "\<lambda>x. if rt_id x = rt_id r
              then x\<lparr>revokedAt := Some now, replacedByTokenId := Some newId\<rparr> else x"
  from assms r have active: "link_state_of now r = ACTIVE"
    by (cases "link_state_of now r") (simp_all add: refresh_def)
  with assms r have "store' = snd (issuePair E now newId newRaw (userId r) (map ?f store))"
    by (simp add: refresh_def split: prod.splits)
  then obtain new where store': "store' = map ?f store @ [new]"
    by (simp add: issuePair_def)
  have "findByTokenHash E raw (map ?f store) = map_option ?f (findByTokenHash E raw store)"
    by (rule findByTokenHash_map) simp
  with r have "findByTokenHash E raw (map ?f store) = Some (?f r)"
    by simp
  then have "findByTokenHash E raw store' = Some (?f r)"
    unfolding store' findByTokenHash_def by (rule find_append_first)
  moreover have "revokedAt (?f r) \<noteq> None" by simp
  ultimately have "refresh E now' newId' newRaw' raw store'
            = (Inl TokenReuseDetected, revokeAllForUser (userId (?f r)) now' store')"
    by (rule refresh_revoked_fails)
  then show ?thesis by simp
qed

end
